theory Spec2Isabelle
  imports Main "HOL-Library.Word"
begin

unbundle bit_operations_syntax

section \<open>Image paths (core/models.py, recipe_image_file_path)\<close>

text \<open>
  \<^verbatim>\<open>str.rfind(c)\<close> for a one-character needle: the highest index holding \<open>c\<close>,
  \<open>-1\<close> when there is none. The scan keeps the last index seen.
  Strings are byte lists; \<open>/\<close> and \<open>.\<close> are ASCII, and no byte of a multi-byte
  UTF-8 sequence is ASCII, so cutting at their positions cuts the Python string at
  the same place.
\<close>

fun rfind_from :: "string \<Rightarrow> char \<Rightarrow> int \<Rightarrow> int \<Rightarrow> int" where
  "rfind_from [] c i found = found"
| "rfind_from (x # xs) c i found = rfind_from xs c (i + 1) (if x = c then i else found)"

definition rfind :: "string \<Rightarrow> char \<Rightarrow> int" where
  "rfind p c = rfind_from p c 0 (- 1)"

text \<open>
  The loop of \<^verbatim>\<open>genericpath._splitext\<close> that skips the leading dots of the last
  path component: the first character that is not a dot, found before the last dot,
  makes the split at the last dot; when every character before it is a dot the path
  has no extension.
\<close>

function skip_leading_dots :: "string \<Rightarrow> int \<Rightarrow> int \<Rightarrow> string \<times> string" where
  "skip_leading_dots p dotIndex filenameIndex =
     (if filenameIndex < dotIndex then
        (if take 1 (drop (nat filenameIndex) p) \<noteq> ''.''
         then (take (nat dotIndex) p, drop (nat dotIndex) p)
         else skip_leading_dots p dotIndex (filenameIndex + 1))
      else (p, []))"
  by pat_completeness auto
termination
  by (relation "measure (\<lambda>(p, dotIndex, filenameIndex). nat (dotIndex - filenameIndex))") auto

text \<open>\<^verbatim>\<open>os.path.splitext\<close> on POSIX: separator \<open>/\<close>, no alternative separator.\<close>

definition splitext :: "string \<Rightarrow> string \<times> string" where
  "splitext p =
     (let sepIndex = rfind p CHR ''/'';
          dotIndex = rfind p CHR ''.''
      in if dotIndex > sepIndex then skip_leading_dots p dotIndex (sepIndex + 1)
         else (p, []))"

text \<open>
  \<^verbatim>\<open>os.path.join\<close> on POSIX: a component that starts with \<open>/\<close> replaces what came
  before it; otherwise it is appended, after a \<open>/\<close> unless the path so far is empty or
  already ends with one.
\<close>

definition join_step :: "string \<Rightarrow> string \<Rightarrow> string" where
  "join_step b path =
     (if take 1 b = ''/'' then b
      else if path = [] \<or> last path = CHR ''/'' then path @ b
      else path @ ''/'' @ b)"

definition path_join :: "string \<Rightarrow> string list \<Rightarrow> string" where
  "path_join a ps = fold join_step ps a"

text \<open>
  \<^verbatim>\<open>uuid.uuid4()\<close> is \<^verbatim>\<open>UUID(bytes=os.urandom(16), version=4)\<close>: the sixteen random
  bytes are the argument here, and the constructor sets the variant and the version
  bits. \<^verbatim>\<open>str\<close> of a UUID prints the 128 bits as 32 lower-case hexadecimal digits in
  groups of 8, 4, 4, 4 and 12.
\<close>

type_synonym uuid = "128 word"

definition uuid4 :: "128 word \<Rightarrow> uuid" where
  "uuid4 random_bits =
     (let i0 = random_bits;
          i1 = i0 AND NOT (push_bit 48 0xc000);
          i2 = i1 OR push_bit 48 0x8000;
          i3 = i2 AND NOT (push_bit 64 0xf000);
          i4 = i3 OR push_bit 76 4
      in i4)"

definition hexdigit :: "nat \<Rightarrow> char" where
  "hexdigit d = (if d < 10 then char_of (48 + d) else char_of (87 + d))"

primrec hex_digits :: "nat \<Rightarrow> nat \<Rightarrow> string" where
  "hex_digits 0 n = []"
| "hex_digits (Suc k) n = hex_digits k (n div 16) @ [hexdigit (n mod 16)]"

definition str_uuid :: "uuid \<Rightarrow> string" where
  "str_uuid u =
     (let hex = hex_digits 32 (unat u)
      in take 8 hex @ ''-'' @ take 4 (drop 8 hex) @ ''-'' @ take 4 (drop 12 hex) @ ''-''
         @ take 4 (drop 16 hex) @ ''-'' @ drop 20 hex)"

text \<open>The \<^verbatim>\<open>instance\<close> argument is not read by the function and is left out.\<close>

definition recipe_image_file_path :: "128 word \<Rightarrow> string \<Rightarrow> string" where
  "recipe_image_file_path random_bits filename =
     (let ext = snd (splitext filename);
          filename' = str_uuid (uuid4 random_bits) @ ext
      in path_join ''uploads'' [''recipe'', filename'])"

text \<open>
  Following the specification's wording, not the source: "the substring of the filename
  from its last dot onward" (empty when the filename has no dot). The source's
  extension is compared with it below.
\<close>

fun from_last_dot :: "string \<Rightarrow> string" where
  "from_last_dot [] = []"
| "from_last_dot (x # xs) =
     (if CHR ''.'' \<in> set xs then from_last_dot xs
      else if x = CHR ''.'' then x # xs else [])"

section \<open>Database models (core/models.py)\<close>

text \<open>
  Exceptions the code raises, or lets Django raise: \<^verbatim>\<open>ValueError\<close> (with its message),
  \<^verbatim>\<open>IntegrityError\<close> from a violated column constraint, \<^verbatim>\<open>MultipleObjectsReturned\<close>
  from a \<^verbatim>\<open>get\<close> that matches more than one row, and the serializer's
  \<^verbatim>\<open>ValidationError\<close>.
\<close>

datatype error =
    ValueError string
  | IntegrityError
  | MultipleObjectsReturned
  | ValidationError

text \<open>
  \<^verbatim>\<open>class User\<close>. The primary key is \<open>None\<close> until the object is saved. The password
  column holds what \<^verbatim>\<open>set_password\<close> stored.
\<close>

record user =
  user_id :: "nat option"
  email :: string
  password :: string
  user_name :: string
  is_active :: bool
  is_staff :: bool
  is_superuser :: bool

text \<open>
  \<^verbatim>\<open>class Recipe\<close>: the owner and the two parallel sets of columns, one per language.
  Nullable columns are options; a price is a decimal with two places, counted in
  hundredths. The many-to-many fields live in their own tables below.
\<close>

type_synonym decimal = int

record recipe =
  recipe_id :: nat
  user :: nat
  title_en :: "string option"
  title_ar :: "string option"
  description_en :: string
  description_ar :: string
  time_minutes_en :: "int option"
  time_minutes_ar :: "int option"
  price_en :: "decimal option"
  price_ar :: "decimal option"
  link_en :: string
  link_ar :: string
  image :: "string option"

text \<open>\<^verbatim>\<open>class Tag\<close> and \<^verbatim>\<open>class Ingredient\<close> have the same columns: a name and an owner.\<close>

record tag =
  tag_id :: nat
  name :: string
  tag_user :: nat

type_synonym ingredient = tag

text \<open>
  A model's table with its key sequence, and the association table of the
  \<^verbatim>\<open>ManyToManyField\<close> of \<^verbatim>\<open>Recipe\<close> that points to it: pairs of a recipe key and a row
  key. The association table holds a pair at most once, so it is a set.
\<close>

record registry =
  rows :: "tag list"
  next_id :: nat
  links :: "(nat \<times> nat) set"

record db =
  users :: "user list"
  next_user_id :: nat
  recipes :: "recipe list"
  next_recipe_id :: nat
  Tag :: registry
  Ingredient :: registry

subsection \<open>UserManager\<close>

text \<open>
  \<^verbatim>\<open>Model.save\<close> for a user: an object without a key is inserted under the next key, an
  object with a key replaces its row. The email column is unique: a second row with
  the same email is refused with \<^verbatim>\<open>IntegrityError\<close>.
\<close>

definition save_user :: "user \<Rightarrow> db \<Rightarrow> db \<times> (error + user)" where
  "save_user u db =
     (if \<exists>v \<in> set (users db). email v = email u \<and> (user_id u = None \<or> user_id v \<noteq> user_id u)
      then (db, Inl IntegrityError)
      else case user_id u of
        None \<Rightarrow>
          (let u' = u\<lparr>user_id := Some (next_user_id db)\<rparr>
           in (db\<lparr>users := users db @ [u'], next_user_id := Suc (next_user_id db)\<rparr>, Inr u'))
      | Some i \<Rightarrow>
          (db\<lparr>users := map (\<lambda>v. if user_id v = Some i then u else v) (users db)\<rparr>, Inr u))"

text \<open>The keyword arguments \<^verbatim>\<open>**extra_fields\<close>: each column is given or left to its default.\<close>

record extra_fields =
  ef_name :: "string option"
  ef_is_active :: "bool option"
  ef_is_staff :: "bool option"
  ef_is_superuser :: "bool option"

text \<open>
  \<^verbatim>\<open>UserManager.create_user\<close>. Django's \<^verbatim>\<open>normalize_email\<close> and the password hasher
  behind \<^verbatim>\<open>set_password\<close> are parameters. \<^verbatim>\<open>not email\<close> holds for \<open>None\<close> and for the
  empty string.
\<close>

definition create_user ::
  "(string \<Rightarrow> string) \<Rightarrow> (string option \<Rightarrow> string) \<Rightarrow>
   string option \<Rightarrow> string option \<Rightarrow> extra_fields \<Rightarrow> db \<Rightarrow> db \<times> (error + user)" where
  "create_user normalize_email make_password email_arg password_arg extra db =
     (case email_arg of
        None \<Rightarrow> (db, Inl (ValueError ''User must have an email address.''))
      | Some e \<Rightarrow>
          if e = [] then (db, Inl (ValueError ''User must have an email address.''))
          else
            (let u = \<lparr>user_id = None, email = normalize_email e, password = [],
                       user_name = (case ef_name extra of None \<Rightarrow> [] | Some n \<Rightarrow> n),
                       is_active = (case ef_is_active extra of None \<Rightarrow> True | Some b \<Rightarrow> b),
                       is_staff = (case ef_is_staff extra of None \<Rightarrow> False | Some b \<Rightarrow> b),
                       is_superuser = (case ef_is_superuser extra of None \<Rightarrow> False | Some b \<Rightarrow> b)\<rparr>;
                 u = u\<lparr>password := make_password password_arg\<rparr>
             in save_user u db))"

definition create_superuser ::
  "(string \<Rightarrow> string) \<Rightarrow> (string option \<Rightarrow> string) \<Rightarrow>
   string option \<Rightarrow> string option \<Rightarrow> db \<Rightarrow> db \<times> (error + user)" where
  "create_superuser normalize_email make_password email_arg password_arg db =
     (case create_user normalize_email make_password email_arg password_arg
             \<lparr>ef_name = None, ef_is_active = None, ef_is_staff = None, ef_is_superuser = None\<rparr> db of
        (db1, Inl e) \<Rightarrow> (db1, Inl e)
      | (db1, Inr u) \<Rightarrow> save_user (u\<lparr>is_staff := True, is_superuser := True\<rparr>) db1)"

section \<open>Serializers (recipe/serializers.py)\<close>

text \<open>
  What the serializer reads of \<^verbatim>\<open>self.context['request']\<close>: the language code and the
  authenticated user (by key).
\<close>

record request =
  LANGUAGE_CODE :: string
  request_user :: nat

subsection \<open>The method fields\<close>

definition get_title :: "request \<Rightarrow> recipe \<Rightarrow> string option" where
  "get_title req obj =
     (if LANGUAGE_CODE req = ''ar'' then title_ar obj else title_en obj)"

definition get_time_minutes :: "request \<Rightarrow> recipe \<Rightarrow> int option" where
  "get_time_minutes req obj =
     (if LANGUAGE_CODE req = ''ar'' then time_minutes_ar obj else time_minutes_en obj)"

definition get_price :: "request \<Rightarrow> recipe \<Rightarrow> decimal option" where
  "get_price req obj =
     (if LANGUAGE_CODE req = ''ar'' then price_ar obj else price_en obj)"

definition get_link :: "request \<Rightarrow> recipe \<Rightarrow> string" where
  "get_link req obj =
     (if LANGUAGE_CODE req = ''ar'' then link_ar obj else link_en obj)"

definition get_description :: "request \<Rightarrow> recipe \<Rightarrow> string" where
  "get_description req obj =
     (if LANGUAGE_CODE req = ''ar'' then description_ar obj else description_en obj)"

subsection \<open>Validated data\<close>

text \<open>
  An entry of \<^verbatim>\<open>validated_data\<close> for a column of \<^verbatim>\<open>Recipe\<close>: the attribute and its
  value, typed as the column is.
\<close>

datatype item =
    Item_user nat
  | Item_title_en "string option"
  | Item_title_ar "string option"
  | Item_description_en string
  | Item_description_ar string
  | Item_time_minutes_en "int option"
  | Item_time_minutes_ar "int option"
  | Item_price_en "decimal option"
  | Item_price_ar "decimal option"
  | Item_link_en string
  | Item_link_ar string
  | Item_image "string option"

datatype attr =
    Attr_user
  | Attr_title_en
  | Attr_title_ar
  | Attr_description_en
  | Attr_description_ar
  | Attr_time_minutes_en
  | Attr_time_minutes_ar
  | Attr_price_en
  | Attr_price_ar
  | Attr_link_en
  | Attr_link_ar
  | Attr_image

fun attr_of :: "item \<Rightarrow> attr" where
  "attr_of (Item_user v) = Attr_user"
| "attr_of (Item_title_en v) = Attr_title_en"
| "attr_of (Item_title_ar v) = Attr_title_ar"
| "attr_of (Item_description_en v) = Attr_description_en"
| "attr_of (Item_description_ar v) = Attr_description_ar"
| "attr_of (Item_time_minutes_en v) = Attr_time_minutes_en"
| "attr_of (Item_time_minutes_ar v) = Attr_time_minutes_ar"
| "attr_of (Item_price_en v) = Attr_price_en"
| "attr_of (Item_price_ar v) = Attr_price_ar"
| "attr_of (Item_link_en v) = Attr_link_en"
| "attr_of (Item_link_ar v) = Attr_link_ar"
| "attr_of (Item_image v) = Attr_image"

text \<open>\<^verbatim>\<open>setattr(instance, attr, value)\<close> and \<^verbatim>\<open>getattr(instance, attr)\<close>.\<close>

fun setattr :: "recipe \<Rightarrow> item \<Rightarrow> recipe" where
  "setattr r (Item_user v) = r\<lparr>user := v\<rparr>"
| "setattr r (Item_title_en v) = r\<lparr>title_en := v\<rparr>"
| "setattr r (Item_title_ar v) = r\<lparr>title_ar := v\<rparr>"
| "setattr r (Item_description_en v) = r\<lparr>description_en := v\<rparr>"
| "setattr r (Item_description_ar v) = r\<lparr>description_ar := v\<rparr>"
| "setattr r (Item_time_minutes_en v) = r\<lparr>time_minutes_en := v\<rparr>"
| "setattr r (Item_time_minutes_ar v) = r\<lparr>time_minutes_ar := v\<rparr>"
| "setattr r (Item_price_en v) = r\<lparr>price_en := v\<rparr>"
| "setattr r (Item_price_ar v) = r\<lparr>price_ar := v\<rparr>"
| "setattr r (Item_link_en v) = r\<lparr>link_en := v\<rparr>"
| "setattr r (Item_link_ar v) = r\<lparr>link_ar := v\<rparr>"
| "setattr r (Item_image v) = r\<lparr>image := v\<rparr>"


text \<open>
  The dictionary \<^verbatim>\<open>validated_data\<close>. The keys \<^verbatim>\<open>tags\<close> and \<^verbatim>\<open>ingredients\<close> are absent
  (\<open>None\<close>) or hold the validated output of the nested serializers, a list of
  \<^verbatim>\<open>{'name': ...}\<close> records, kept here by their names; the remaining entries are column
  values. \<^verbatim>\<open>pop\<close> reads a key and leaves the column entries.
\<close>

record validated_data =
  vd_tags :: "string list option"
  vd_ingredients :: "string list option"
  vd_items :: "item list"

subsection \<open>Managers\<close>

text \<open>
  \<^verbatim>\<open>objects.get_or_create(user=auth_user, name=n)\<close>: the row that matches, a new row
  when none does, \<^verbatim>\<open>MultipleObjectsReturned\<close> when several do.
\<close>

definition get_or_create :: "nat \<Rightarrow> string \<Rightarrow> registry \<Rightarrow> registry \<times> (error + tag \<times> bool)" where
  "get_or_create auth_user n reg =
     (case filter (\<lambda>t. tag_user t = auth_user \<and> name t = n) (rows reg) of
        [] \<Rightarrow>
          (let t = \<lparr>tag_id = next_id reg, name = n, tag_user = auth_user\<rparr>
           in (reg\<lparr>rows := rows reg @ [t], next_id := Suc (next_id reg)\<rparr>, Inr (t, True)))
      | [t] \<Rightarrow> (reg, Inr (t, False))
      | _ \<Rightarrow> (reg, Inl MultipleObjectsReturned))"

text \<open>
  The related manager of a recipe (\<^verbatim>\<open>recipe.tags\<close>, \<^verbatim>\<open>recipe.ingredients\<close>):
  \<^verbatim>\<open>add\<close> links a row to the recipe unless it is linked already, \<^verbatim>\<open>clear\<close> removes
  every link of the recipe.
\<close>

definition add :: "nat \<Rightarrow> tag \<Rightarrow> registry \<Rightarrow> registry" where
  "add rid obj reg = reg\<lparr>links := insert (rid, tag_id obj) (links reg)\<rparr>"

definition clear :: "nat \<Rightarrow> registry \<Rightarrow> registry" where
  "clear rid reg = reg\<lparr>links := Set.filter (\<lambda>p. fst p \<noteq> rid) (links reg)\<rparr>"

text \<open>
  \<^verbatim>\<open>Recipe.objects.create(**kwargs)\<close>: a row with the given columns over the column
  defaults, under the next key. The owner is a required foreign key without a
  default: without it the insert violates the column's NOT NULL constraint.
\<close>

definition Recipe_objects_create :: "item list \<Rightarrow> db \<Rightarrow> db \<times> (error + recipe)" where
  "Recipe_objects_create kwargs db =
     (case List.map_filter (\<lambda>i. case i of Item_user u \<Rightarrow> Some u | _ \<Rightarrow> None) kwargs of
        [] \<Rightarrow> (db, Inl IntegrityError)
      | u # us \<Rightarrow>
          (let obj = fold (\<lambda>i r. setattr r i) kwargs
                 \<lparr>recipe_id = next_recipe_id db, user = u,
                  title_en = None, title_ar = None,
                  description_en = [], description_ar = [],
                  time_minutes_en = None, time_minutes_ar = None,
                  price_en = None, price_ar = None,
                  link_en = [], link_ar = [], image = None\<rparr>
           in (db\<lparr>recipes := recipes db @ [obj], next_recipe_id := Suc (next_recipe_id db)\<rparr>,
               Inr obj)))"

text \<open>\<^verbatim>\<open>instance.save()\<close> for a recipe: its row is replaced, or inserted when there is none.\<close>

definition save :: "recipe \<Rightarrow> db \<Rightarrow> db" where
  "save instance db =
     (if \<exists>r \<in> set (recipes db). recipe_id r = recipe_id instance
      then db\<lparr>recipes := map (\<lambda>r. if recipe_id r = recipe_id instance then instance else r)
                             (recipes db)\<rparr>
      else db\<lparr>recipes := recipes db @ [instance]\<rparr>)"

subsection \<open>RecipeSerializer\<close>

text \<open>
  The loop of \<^verbatim>\<open>_get_and_create_tags\<close> and of \<^verbatim>\<open>_get_and_create_ingredients\<close>, which
  differ in the model they address only.
\<close>

fun get_and_create :: "nat \<Rightarrow> string list \<Rightarrow> nat \<Rightarrow> registry \<Rightarrow> registry \<times> (error + unit)" where
  "get_and_create auth_user [] rid reg = (reg, Inr ())"
| "get_and_create auth_user (n # ns) rid reg =
     (case get_or_create auth_user n reg of
        (reg', Inl e) \<Rightarrow> (reg', Inl e)
      | (reg', Inr (obj, created)) \<Rightarrow> get_and_create auth_user ns rid (add rid obj reg'))"

definition get_and_create_tags :: "request \<Rightarrow> string list \<Rightarrow> recipe \<Rightarrow> db \<Rightarrow> db \<times> (error + unit)" where
  "get_and_create_tags req tags recipe db =
     (let auth_user = request_user req;
          (reg, res) = get_and_create auth_user tags (recipe_id recipe) (Tag db)
      in (db\<lparr>Tag := reg\<rparr>, res))"

definition get_and_create_ingredients ::
  "request \<Rightarrow> string list \<Rightarrow> recipe \<Rightarrow> db \<Rightarrow> db \<times> (error + unit)" where
  "get_and_create_ingredients req ingredients recipe db =
     (let auth_user = request_user req;
          (reg, res) = get_and_create auth_user ingredients (recipe_id recipe) (Ingredient db)
      in (db\<lparr>Ingredient := reg\<rparr>, res))"

definition create :: "request \<Rightarrow> validated_data \<Rightarrow> db \<Rightarrow> db \<times> (error + recipe)" where
  "create req validated_data db =
     (let tags = (case vd_tags validated_data of None \<Rightarrow> [] | Some ts \<Rightarrow> ts);
          ingredients = (case vd_ingredients validated_data of None \<Rightarrow> [] | Some ns \<Rightarrow> ns)
      in case Recipe_objects_create (vd_items validated_data) db of
           (db1, Inl e) \<Rightarrow> (db1, Inl e)
         | (db1, Inr recipe) \<Rightarrow>
             (case get_and_create_tags req tags recipe db1 of
                (db2, Inl e) \<Rightarrow> (db2, Inl e)
              | (db2, Inr _) \<Rightarrow>
                  (case get_and_create_ingredients req ingredients recipe db2 of
                     (db3, Inl e) \<Rightarrow> (db3, Inl e)
                   | (db3, Inr _) \<Rightarrow> (db3, Inr recipe))))"

definition update :: "request \<Rightarrow> recipe \<Rightarrow> validated_data \<Rightarrow> db \<Rightarrow> db \<times> (error + recipe)" where
  "update req instance validated_data db =
     (let tags = vd_tags validated_data;
          ingredients = vd_ingredients validated_data
      in case (case tags of
                 None \<Rightarrow> (db, Inr ())
               | Some ts \<Rightarrow>
                   get_and_create_tags req ts instance
                     (db\<lparr>Tag := clear (recipe_id instance) (Tag db)\<rparr>)) of
           (db1, Inl e) \<Rightarrow> (db1, Inl e)
         | (db1, Inr _) \<Rightarrow>
             (case (case ingredients of
                      None \<Rightarrow> (db1, Inr ())
                    | Some ns \<Rightarrow>
                        get_and_create_ingredients req ns instance
                          (db1\<lparr>Ingredient := clear (recipe_id instance) (Ingredient db1)\<rparr>)) of
                (db2, Inl e) \<Rightarrow> (db2, Inl e)
              | (db2, Inr _) \<Rightarrow>
                  (let instance' = fold (\<lambda>i r. setattr r i) (vd_items validated_data) instance
                   in (save instance' db2, Inr instance'))))"

subsection \<open>From request data to validated data\<close>

text \<open>
  The fields the two recipe serializers declare, by name, in the order of
  \<^verbatim>\<open>Meta.fields\<close>: \<^verbatim>\<open>id\<close> is listed in \<^verbatim>\<open>read_only_fields\<close>; \<^verbatim>\<open>title\<close>,
  \<^verbatim>\<open>time_minutes\<close>, \<^verbatim>\<open>price\<close>, \<^verbatim>\<open>link\<close> and \<^verbatim>\<open>description\<close> are declared as
  \<^verbatim>\<open>SerializerMethodField\<close>; \<^verbatim>\<open>tags\<close> and \<^verbatim>\<open>ingredients\<close> are the nested serializers
  with \<^verbatim>\<open>many=True, required=False\<close>; \<^verbatim>\<open>image\<close> is the model's image column.
  \<^verbatim>\<open>RecipeDetailSerializer\<close> appends \<^verbatim>\<open>description\<close> and \<^verbatim>\<open>image\<close> to the list it inherits.
\<close>

datatype field =
    Read_only_field
  | Serializer_method_field
  | Tags_field
  | Ingredients_field
  | Image_field

definition RecipeSerializer_fields :: "(string \<times> field) list" where
  "RecipeSerializer_fields =
     [(''id'', Read_only_field),
      (''title'', Serializer_method_field),
      (''time_minutes'', Serializer_method_field),
      (''price'', Serializer_method_field),
      (''link'', Serializer_method_field),
      (''tags'', Tags_field),
      (''ingredients'', Ingredients_field),
      (''image'', Image_field)]"

definition RecipeDetailSerializer_fields :: "(string \<times> field) list" where
  "RecipeDetailSerializer_fields =
     RecipeSerializer_fields @ [(''description'', Serializer_method_field), (''image'', Image_field)]"

text \<open>Request data: a JSON document, or a form with an uploaded file.\<close>

datatype json =
    JNull
  | JStr string
  | JInt int
  | JFile string
  | JList "json list"
  | JObj "(string \<times> json) list"

text \<open>
  The checks of the framework's leaf fields are parameters: the \<^verbatim>\<open>CharField\<close> behind
  a tag's or an ingredient's \<^verbatim>\<open>name\<close>, and the \<^verbatim>\<open>ImageField\<close> (which accepts null).
\<close>

record validators =
  name_field :: "json \<Rightarrow> error + string"
  image_field :: "json \<Rightarrow> error + string option"

text \<open>
  A nested serializer with \<^verbatim>\<open>many=True\<close> takes a list of objects and validates the
  \<^verbatim>\<open>name\<close> of each; its \<^verbatim>\<open>id\<close> is read-only and not read.
\<close>

fun validate_names :: "validators \<Rightarrow> json list \<Rightarrow> error + string list" where
  "validate_names V [] = Inr []"
| "validate_names V (JObj kv # xs) =
     (case map_of kv ''name'' of
        None \<Rightarrow> Inl ValidationError
      | Some v \<Rightarrow>
          (case name_field V v of
             Inl e \<Rightarrow> Inl e
           | Inr n \<Rightarrow> (case validate_names V xs of Inl e \<Rightarrow> Inl e | Inr ns \<Rightarrow> Inr (n # ns))))"
| "validate_names V (x # xs) = Inl ValidationError"

text \<open>
  \<^verbatim>\<open>Serializer.to_internal_value\<close> visits the declared fields: a read-only field (a
  \<^verbatim>\<open>SerializerMethodField\<close> is one) is never read from the data; a writable field that
  the data leaves out is skipped, none being required; a value that is present is
  validated and stored under the field's name.
\<close>

fun set_field ::
  "validators \<Rightarrow> (string \<times> json) list \<Rightarrow> string \<times> field \<Rightarrow> validated_data \<Rightarrow> error + validated_data" where
  "set_field V data (k, Read_only_field) vd = Inr vd"
| "set_field V data (k, Serializer_method_field) vd = Inr vd"
| "set_field V data (k, Tags_field) vd =
     (case map_of data k of
        None \<Rightarrow> Inr vd
      | Some (JList xs) \<Rightarrow>
          (case validate_names V xs of
             Inl e \<Rightarrow> Inl e
           | Inr ns \<Rightarrow> Inr (vd\<lparr>vd_tags := Some ns\<rparr>))
      | Some _ \<Rightarrow> Inl ValidationError)"
| "set_field V data (k, Ingredients_field) vd =
     (case map_of data k of
        None \<Rightarrow> Inr vd
      | Some (JList xs) \<Rightarrow>
          (case validate_names V xs of
             Inl e \<Rightarrow> Inl e
           | Inr ns \<Rightarrow> Inr (vd\<lparr>vd_ingredients := Some ns\<rparr>))
      | Some _ \<Rightarrow> Inl ValidationError)"
| "set_field V data (k, Image_field) vd =
     (case map_of data k of
        None \<Rightarrow> Inr vd
      | Some v \<Rightarrow>
          (case image_field V v of
             Inl e \<Rightarrow> Inl e
           | Inr img \<Rightarrow>
               Inr (vd\<lparr>vd_items :=
                      filter (\<lambda>i. attr_of i \<noteq> Attr_image) (vd_items vd) @ [Item_image img]\<rparr>)))"

fun set_fields ::
  "validators \<Rightarrow> (string \<times> json) list \<Rightarrow> (string \<times> field) list \<Rightarrow> validated_data \<Rightarrow>
   error + validated_data" where
  "set_fields V data [] vd = Inr vd"
| "set_fields V data (f # fs) vd =
     (case set_field V data f vd of
        Inl e \<Rightarrow> Inl e
      | Inr vd' \<Rightarrow> set_fields V data fs vd')"

definition to_internal_value ::
  "validators \<Rightarrow> (string \<times> field) list \<Rightarrow> (string \<times> json) list \<Rightarrow> error + validated_data" where
  "to_internal_value V declared data =
     set_fields V data declared \<lparr>vd_tags = None, vd_ingredients = None, vd_items = []\<rparr>"

text \<open>
  \<^verbatim>\<open>serializer.save(**kwargs)\<close>: invalid data raises before anything is written; the
  keyword arguments override the validated entries of the same name; a serializer
  bound to an instance updates it, an unbound one creates.
\<close>

definition serializer_save ::
  "validators \<Rightarrow> (string \<times> field) list \<Rightarrow> request \<Rightarrow> recipe option \<Rightarrow>
   (string \<times> json) list \<Rightarrow> item list \<Rightarrow> db \<Rightarrow> db \<times> (error + recipe)" where
  "serializer_save V declared req instance data kwargs db =
     (case to_internal_value V declared data of
        Inl e \<Rightarrow> (db, Inl e)
      | Inr vd \<Rightarrow>
          (let validated_data =
                 vd\<lparr>vd_items :=
                      filter (\<lambda>i. attr_of i \<notin> attr_of ` set kwargs) (vd_items vd) @ kwargs\<rparr>
           in case instance of
                None \<Rightarrow> create req validated_data db
              | Some obj \<Rightarrow> update req obj validated_data db))"

subsection \<open>Deleting a recipe\<close>

text \<open>
  Modelled from the spec: the delete operation of a recipe is not among the source
  files. The specification says that a recipe does not own the lifetime of its tags
  and ingredients, and that deleting it is handled by the association table: the
  recipe's row and its association memberships go, the \<^verbatim>\<open>Tag\<close> and \<^verbatim>\<open>Ingredient\<close>
  rows stay.
\<close>

definition delete_recipe :: "nat \<Rightarrow> db \<Rightarrow> db" where
  "delete_recipe rid db =
     db\<lparr>recipes := filter (\<lambda>r. recipe_id r \<noteq> rid) (recipes db),
        Tag := clear rid (Tag db),
        Ingredient := clear rid (Ingredient db)\<rparr>"

section \<open>Notions used to state the properties\<close>

text \<open>The rows of a table owned by user \<open>u\<close> and named \<open>n\<close>.\<close>

definition matching :: "nat \<Rightarrow> string \<Rightarrow> tag list \<Rightarrow> tag list" where
  "matching u n ts = filter (\<lambda>t. tag_user t = u \<and> name t = n) ts"

text \<open>No listed name has more than one row of user \<open>u\<close>.\<close>

definition unique_names :: "nat \<Rightarrow> string list \<Rightarrow> registry \<Rightarrow> bool" where
  "unique_names u ns reg = list_all (\<lambda>n. length (matching u n (rows reg)) \<le> 1) ns"

text \<open>The keys of the rows of user \<open>u\<close> whose name is listed.\<close>

definition resolved :: "nat \<Rightarrow> string list \<Rightarrow> registry \<Rightarrow> nat set" where
  "resolved u ns reg = tag_id ` set (filter (\<lambda>t. tag_user t = u \<and> name t \<in> set ns) (rows reg))"

text \<open>The keys linked to a recipe.\<close>

definition linked :: "nat \<Rightarrow> registry \<Rightarrow> nat set" where
  "linked rid reg = snd ` Set.filter (\<lambda>p. fst p = rid) (links reg)"

text \<open>The language-qualified columns of a recipe.\<close>

definition locale_columns ::
  "recipe \<Rightarrow> (string option \<times> string option) \<times> (string \<times> string) \<times> (int option \<times> int option)
     \<times> (decimal option \<times> decimal option) \<times> (string \<times> string)" where
  "locale_columns r =
     ((title_en r, title_ar r), (description_en r, description_ar r),
      (time_minutes_en r, time_minutes_ar r), (price_en r, price_ar r), (link_en r, link_ar r))"

text \<open>The owner that \<^verbatim>\<open>Recipe.objects.create\<close> looks for among its keyword arguments.\<close>

definition has_user :: "item list \<Rightarrow> bool" where
  "has_user kwargs = (List.map_filter (\<lambda>i. case i of Item_user u \<Rightarrow> Some u | _ \<Rightarrow> None) kwargs \<noteq> [])"


text \<open>The names a payload lists under a key: none when the key is absent.\<close>

definition listed :: "string list option \<Rightarrow> string list" where
  "listed x = (case x of None \<Rightarrow> [] | Some ns \<Rightarrow> ns)"

section \<open>Sample data\<close>

text \<open>A request of user 1, a stored recipe of that user, and a store that holds both.\<close>

definition sample_request :: request where
  "sample_request = \<lparr>LANGUAGE_CODE = ''en'', request_user = 1\<rparr>"

definition sample_recipe :: recipe where
  "sample_recipe =
     \<lparr>recipe_id = 7, user = 1, title_en = Some ''Soup'', title_ar = None,
      description_en = ''Hot'', description_ar = [],
      time_minutes_en = Some 10, time_minutes_ar = None,
      price_en = Some 550, price_ar = None,
      link_en = [], link_ar = [], image = None\<rparr>"

text \<open>The recipe is linked to the tag \<^verbatim>\<open>old\<close> and to the ingredient \<^verbatim>\<open>salt\<close>.\<close>

definition sample_user :: user where
  "sample_user =
     \<lparr>user_id = Some 1, email = ''cook@example.com'', password = ''hash'', user_name = ''Cook'',
      is_active = True, is_staff = False, is_superuser = False\<rparr>"

definition sample_db :: db where
  "sample_db =
     \<lparr>users = [sample_user], next_user_id = 2,
      recipes = [sample_recipe], next_recipe_id = 8,
      Tag = \<lparr>rows = [\<lparr>tag_id = 5, name = ''old'', tag_user = 1\<rparr>], next_id = 6,
             links = {(7, 5)}\<rparr>,
      Ingredient = \<lparr>rows = [\<lparr>tag_id = 3, name = ''salt'', tag_user = 1\<rparr>], next_id = 4,
                    links = {(7, 3)}\<rparr>\<rparr>"


text \<open>Leaf checks that accept a string as a name, and null or an uploaded file as an image.\<close>

definition sample_validators :: validators where
  "sample_validators =
     \<lparr>name_field = (\<lambda>j. case j of JStr s \<Rightarrow> Inr s | _ \<Rightarrow> Inl ValidationError),
      image_field = (\<lambda>j. case j of JNull \<Rightarrow> Inr None | JFile f \<Rightarrow> Inr (Some f)
                          | _ \<Rightarrow> Inl ValidationError)\<rparr>"

section \<open>Facts about paths, extensions and UUID strings\<close>

lemma rfind_from_append:
  "rfind_from (xs @ ys) c i found = rfind_from ys c (i + int (length xs)) (rfind_from xs c i found)"
  by (induction xs arbitrary: i found) (auto simp: algebra_simps)

lemma rfind_from_absent: "c \<notin> set xs \<Longrightarrow> rfind_from xs c i found = found"
  by (induction xs arbitrary: i found) auto

lemma rfind_from_bound:
  "found < i \<Longrightarrow> rfind_from xs c i found < i + int (length xs)"
proof (induction xs arbitrary: i found)
  case Nil
  then show ?case by simp
next
  case (Cons a xs)
  have "(if a = c then i else found) < i + 1" using Cons.prems by simp
  from Cons.IH [OF this] show ?case by simp
qed

lemma rfind_absent: "c \<notin> set p \<Longrightarrow> rfind p c = - 1"
  by (simp add: rfind_def rfind_from_absent)

lemma rfind_last: "c \<notin> set ys \<Longrightarrow> rfind (xs @ c # ys) c = int (length xs)"
  by (simp add: rfind_def rfind_from_append rfind_from_absent)

lemma rfind_less: "rfind p c < int (length p)"
  using rfind_from_bound [of "- 1" 0 p c] by (simp add: rfind_def)

lemma rfind_append_absent: "c \<notin> set ys \<Longrightarrow> rfind (xs @ ys) c = rfind xs c"
  by (simp add: rfind_def rfind_from_append rfind_from_absent)

lemma skip_leading_dots_stem:
  "skip_leading_dots (d @ stem @ rest) (int (length d) + int (length stem)) (int (length d)) =
     (if \<exists>c \<in> set stem. c \<noteq> CHR ''.''
      then (d @ stem, rest) else (d @ stem @ rest, []))"
proof (induction stem arbitrary: d)
  case Nil
  show ?case by (subst skip_leading_dots.simps) simp
next
  case (Cons c cs)
  have step: "skip_leading_dots ((d @ [c]) @ cs @ rest)
                (int (length (d @ [c])) + int (length cs)) (int (length (d @ [c]))) =
     (if \<exists>x \<in> set cs. x \<noteq> CHR ''.''
      then ((d @ [c]) @ cs, rest) else ((d @ [c]) @ cs @ rest, []))"
    by (rule Cons.IH)
  show ?case
  proof (cases "c = CHR ''.''")
    case True
    then show ?thesis
      using step by (subst skip_leading_dots.simps) (simp add: add.commute add.left_commute)
  next
    case False
    have n: "nat (int (length d) + (1 + int (length cs))) = length d + Suc (length cs)"
      by arith
    from False show ?thesis
      by (subst skip_leading_dots.simps) (simp add: n)
  qed
qed

lemma splitext_ext:
  assumes "d = [] \<or> last d = CHR ''/''" "CHR ''/'' \<notin> set stem" "CHR ''/'' \<notin> set e"
    "CHR ''.'' \<notin> set e"
  shows "splitext (d @ stem @ ''.'' @ e) =
     (if \<exists>c \<in> set stem. c \<noteq> CHR ''.'' then (d @ stem, ''.'' @ e) else (d @ stem @ ''.'' @ e, []))"
proof -
  have dot: "rfind (d @ stem @ ''.'' @ e) CHR ''.'' = int (length d) + int (length stem)"
    using rfind_last [of "CHR ''.''" e "d @ stem"] assms(4) by simp
  have sep: "rfind (d @ stem @ ''.'' @ e) CHR ''/'' + 1 = int (length d)"
  proof (cases "d = []")
    case True
    then show ?thesis using assms by (simp add: rfind_absent)
  next
    case False
    then obtain d' where d: "d = d' @ ''/''"
      using assms(1) by (metis append_butlast_last_id)
    have "rfind (d' @ CHR ''/'' # (stem @ ''.'' @ e)) CHR ''/'' = int (length d')"
      by (rule rfind_last) (use assms in simp)
    then show ?thesis by (simp add: d)
  qed
  show ?thesis
    unfolding splitext_def Let_def dot
    using sep skip_leading_dots_stem [of d stem "''.'' @ e"]
    by (simp add: )
qed

lemma rfind_from_ge: "found < i \<Longrightarrow> found \<le> rfind_from xs c i found"
proof (induction xs arbitrary: i found)
  case Nil
  then show ?case by simp
next
  case (Cons a xs)
  have "(if a = c then i else found) < i + 1" using Cons.prems by simp
  from Cons.IH [OF this] show ?case using Cons.prems by (simp split: if_splits)
qed

lemma rfind_append_ge: "rfind xs c \<le> rfind (xs @ ys) c"
proof -
  have "rfind_from xs c 0 (- 1) < 0 + int (length xs)"
    by (rule rfind_from_bound) simp
  then show ?thesis
    using rfind_from_ge [of "rfind_from xs c 0 (- 1)" "int (length xs)" ys c]
    by (simp add: rfind_def rfind_from_append)
qed

lemma splitext_noext:
  assumes "d = [] \<or> last d = CHR ''/''" "CHR ''.'' \<notin> set b"
  shows "splitext (d @ b) = (d @ b, [])"
proof -
  have dot: "rfind (d @ b) CHR ''.'' = rfind d CHR ''.''"
    using assms(2) by (rule rfind_append_absent)
  have "rfind d CHR ''.'' \<le> rfind (d @ b) CHR ''/''"
  proof (cases "d = []")
    case True
    have "- 1 \<le> rfind_from b CHR ''/'' 0 (- 1)"
      by (rule rfind_from_ge) simp
    then show ?thesis using True by (simp add: rfind_def)
  next
    case False
    then obtain d' where d: "d = d' @ ''/''"
      using assms(1) by (metis append_butlast_last_id)
    have "rfind (d' @ CHR ''/'' # []) CHR ''/'' = int (length d')"
      by (rule rfind_last) simp
    then have "rfind d CHR ''/'' = int (length d) - 1" by (simp add: d)
    moreover have "rfind d CHR ''.'' < int (length d)" by (rule rfind_less)
    moreover have "rfind d CHR ''/'' \<le> rfind (d @ b) CHR ''/''" by (rule rfind_append_ge)
    ultimately show ?thesis by linarith
  qed
  then show ?thesis
    unfolding splitext_def Let_def dot by simp
qed




lemma of_char_hexdigit:
  "d < 16 \<Longrightarrow> (of_char (hexdigit d) :: nat) \<in> {48..57} \<union> {97..102}"
  by (auto simp: hexdigit_def)

lemma hexdigit_not_sep:
  assumes "d < 16"
  shows "hexdigit d \<noteq> CHR ''/''" and "hexdigit d \<noteq> CHR ''.''"
proof -
  have "(of_char (hexdigit d) :: nat) \<noteq> of_char CHR ''/''"
    using of_char_hexdigit [OF assms] by auto
  then show "hexdigit d \<noteq> CHR ''/''" by auto
  have "(of_char (hexdigit d) :: nat) \<noteq> of_char CHR ''.''"
    using of_char_hexdigit [OF assms] by auto
  then show "hexdigit d \<noteq> CHR ''.''" by auto
qed


lemma length_hex_digits: "length (hex_digits k n) = k"
  by (induction k arbitrary: n) auto

lemma set_hex_digits: "set (hex_digits k n) \<subseteq> hexdigit ` {..<16}"
  by (induction k arbitrary: n) auto


lemma hex_digits_not_sep:
  "CHR ''/'' \<notin> set (hex_digits k n)" "CHR ''.'' \<notin> set (hex_digits k n)"
proof -
  have mem: "\<exists>d<16. x = hexdigit d" if "x \<in> set (hex_digits k n)" for x
    using set_hex_digits [of k n] that by auto
  show "CHR ''/'' \<notin> set (hex_digits k n)"
    using mem [of "CHR ''/''"] hexdigit_not_sep(1) by metis
  show "CHR ''.'' \<notin> set (hex_digits k n)"
    using mem [of "CHR ''.''"] hexdigit_not_sep(2) by metis
qed

lemma str_uuid_length: "length (str_uuid u) = 36"
  by (simp add: str_uuid_def Let_def length_hex_digits)

lemma str_uuid_not_sep:
  "CHR ''/'' \<notin> set (str_uuid u)" "CHR ''.'' \<notin> set (str_uuid u)"
  using hex_digits_not_sep [of 32 "unat u"]
  by (auto simp: str_uuid_def Let_def dest: in_set_takeD in_set_dropD)



lemma path_join_uploads:
  assumes "take 1 f \<noteq> ''/''"
  shows "path_join ''uploads'' [''recipe'', f] = ''uploads/recipe/'' @ f"
  using assms by (simp add: path_join_def join_step_def)





lemma from_last_dot_append:
  "CHR ''.'' \<notin> set e \<Longrightarrow> from_last_dot (xs @ CHR ''.'' # e) = CHR ''.'' # e"
  by (induction xs) auto

lemma from_last_dot_absent: "CHR ''.'' \<notin> set p \<Longrightarrow> from_last_dot p = []"
  by (induction p) auto

lemma image_path_eq:
  "recipe_image_file_path r filename =
     ''uploads/recipe/'' @ str_uuid (uuid4 r) @ snd (splitext filename)"
proof -
  have "str_uuid (uuid4 r) \<noteq> []"
    using str_uuid_length [of "uuid4 r"] by auto
  then obtain c cs where s: "str_uuid (uuid4 r) = c # cs"
    by (cases "str_uuid (uuid4 r)") auto
  then have "c \<noteq> CHR ''/''"
    using str_uuid_not_sep(1) [of "uuid4 r"] by auto
  then have "take 1 (str_uuid (uuid4 r) @ snd (splitext filename)) \<noteq> ''/''"
    by (simp add: s)
  then show ?thesis
    unfolding recipe_image_file_path_def Let_def by (simp add: path_join_uploads)
qed




lemma splitext_bashrc: "splitext ''.bashrc'' = (''.bashrc'', [])"
  using splitext_ext [of "[]" "[]" "''bashrc''"] by simp


section \<open>Claims about the image path\<close>



text \<open>
  Claim C10, as stated, fails: the claim appends the substring from the last dot onward
  for every filename, but \<^verbatim>\<open>os.path.splitext\<close> gives a name made of leading dots and a
  stem, such as \<^verbatim>\<open>.bashrc\<close>, no extension at all.
\<close>

theorem last_dot_suffix_counterexample:
  "recipe_image_file_path 0 ''.bashrc'' = ''uploads/recipe/'' @ str_uuid (uuid4 0)
   \<and> from_last_dot ''.bashrc'' = ''.bashrc''
   \<and> recipe_image_file_path 0 ''.bashrc''
       \<noteq> ''uploads/recipe/'' @ str_uuid (uuid4 0) @ from_last_dot ''.bashrc''"
  by (simp add: image_path_eq splitext_bashrc)

text \<open>
  Claim C10, amended. Write the filename as a directory part \<open>d\<close> (empty, or ending
  with \<^verbatim>\<open>/\<close>) followed by its last component. When the last component is
  \<open>stem @ ''.'' @ e\<close> with no dot in \<open>e\<close>, the path is \<^verbatim>\<open>uploads/recipe/<uuid>\<close>
  followed by the substring from the last dot onward, \<open>''.'' @ e\<close>, provided \<open>stem\<close>
  holds a character other than a dot; when \<open>stem\<close> is empty or all dots, nothing
  follows the UUID. When the last component has no dot, nothing follows the UUID
  either. No other part of the filename reaches the path: a filename without a dot
  gives a path without a dot, and \<^verbatim>\<open>a.b.c\<close> keeps \<^verbatim>\<open>.c\<close> only.
\<close>

theorem recipe_image_file_path_extension:
  "((d = [] \<or> last d = CHR ''/'') \<and> CHR ''/'' \<notin> set stem \<and> CHR ''/'' \<notin> set e
      \<and> CHR ''.'' \<notin> set e \<longrightarrow>
      from_last_dot (d @ stem @ ''.'' @ e) = ''.'' @ e \<and>
      recipe_image_file_path r (d @ stem @ ''.'' @ e) =
        ''uploads/recipe/'' @ str_uuid (uuid4 r) @
        (if \<exists>c \<in> set stem. c \<noteq> CHR ''.'' then from_last_dot (d @ stem @ ''.'' @ e) else []))
   \<and> ((d = [] \<or> last d = CHR ''/'') \<and> CHR ''.'' \<notin> set b \<longrightarrow>
      recipe_image_file_path r (d @ b) = ''uploads/recipe/'' @ str_uuid (uuid4 r))
   \<and> (CHR ''.'' \<notin> set filename \<longrightarrow> CHR ''.'' \<notin> set (recipe_image_file_path r filename))
   \<and> recipe_image_file_path r ''a.b.c'' = ''uploads/recipe/'' @ str_uuid (uuid4 r) @ ''.c''"
proof -
  have one: "from_last_dot (d @ stem @ ''.'' @ e) = ''.'' @ e \<and>
      recipe_image_file_path r (d @ stem @ ''.'' @ e) =
        ''uploads/recipe/'' @ str_uuid (uuid4 r) @
        (if \<exists>c \<in> set stem. c \<noteq> CHR ''.'' then from_last_dot (d @ stem @ ''.'' @ e) else [])"
    if h: "d = [] \<or> last d = CHR ''/''" "CHR ''/'' \<notin> set stem" "CHR ''/'' \<notin> set e"
      "CHR ''.'' \<notin> set e"
  proof -
    have f: "from_last_dot (d @ stem @ ''.'' @ e) = ''.'' @ e"
      using from_last_dot_append [of e "d @ stem"] h(4) by simp
    show ?thesis
      unfolding f using splitext_ext [OF h] by (simp add: image_path_eq)
  qed
  have two: "recipe_image_file_path r (d @ b) = ''uploads/recipe/'' @ str_uuid (uuid4 r)"
    if "d = [] \<or> last d = CHR ''/''" "CHR ''.'' \<notin> set b"
    using splitext_noext [OF that] by (simp add: image_path_eq)
  have three: "CHR ''.'' \<notin> set (recipe_image_file_path r filename)"
    if "CHR ''.'' \<notin> set filename"
  proof -
    have "splitext ([] @ filename) = ([] @ filename, [])"
      by (rule splitext_noext) (use that in simp_all)
    then show ?thesis
      using str_uuid_not_sep(2) [of "uuid4 r"] by (simp add: image_path_eq)
  qed
  have four: "recipe_image_file_path r ''a.b.c'' = ''uploads/recipe/'' @ str_uuid (uuid4 r) @ ''.c''"
    using splitext_ext [of "[]" "''a.b''" "''c''"] by (simp add: image_path_eq)
  show ?thesis using one two three four by blast
qed

theorem recipe_image_file_path_extension_witness:
  "recipe_image_file_path 0 ''img/.x.tar.gz'' = ''uploads/recipe/'' @ str_uuid (uuid4 0) @ ''.gz''
   \<and> recipe_image_file_path 0 ''..jpg'' = ''uploads/recipe/'' @ str_uuid (uuid4 0)
   \<and> recipe_image_file_path 0 ''v1.2/readme'' = ''uploads/recipe/'' @ str_uuid (uuid4 0)
   \<and> CHR ''.'' \<notin> set (recipe_image_file_path 0 ''photo'')"
proof -
  have a: "recipe_image_file_path 0 ''img/.x.tar.gz'' =
      ''uploads/recipe/'' @ str_uuid (uuid4 0) @ ''.gz''"
    using recipe_image_file_path_extension [of "''img/''" "''.x.tar''" "''gz''" 0 "[]" "[]"]
    by simp
  have b: "recipe_image_file_path 0 ''..jpg'' = ''uploads/recipe/'' @ str_uuid (uuid4 0)"
    using recipe_image_file_path_extension [of "[]" "''.''" "''jpg''" 0 "[]" "[]"]
    by simp
  have c: "recipe_image_file_path 0 ''v1.2/readme'' = ''uploads/recipe/'' @ str_uuid (uuid4 0)"
    using recipe_image_file_path_extension [of "''v1.2/''" "[]" "[]" 0 "''readme''" "[]"]
    by simp
  have d: "CHR ''.'' \<notin> set (recipe_image_file_path 0 ''photo'')"
    using recipe_image_file_path_extension [of "[]" "[]" "[]" 0 "[]" "''photo''"]
    by simp
  show ?thesis using a b c d by blast
qed

section \<open>Facts about get-or-create and the association tables\<close>

lemma get_or_create_new:
  assumes "matching u n (rows reg) = []"
  shows "get_or_create u n reg =
     (reg\<lparr>rows := rows reg @ [\<lparr>tag_id = next_id reg, name = n, tag_user = u\<rparr>],
          next_id := Suc (next_id reg)\<rparr>,
      Inr (\<lparr>tag_id = next_id reg, name = n, tag_user = u\<rparr>, True))"
  using assms by (simp add: get_or_create_def matching_def Let_def)

lemma get_or_create_old:
  assumes "matching u n (rows reg) = [t]"
  shows "get_or_create u n reg = (reg, Inr (t, False))"
  using assms by (simp add: get_or_create_def matching_def)

lemma get_or_create_many:
  assumes "1 < length (matching u n (rows reg))"
  shows "get_or_create u n reg = (reg, Inl MultipleObjectsReturned)"
proof -
  obtain a b cs where "matching u n (rows reg) = a # b # cs"
    using assms by (cases "matching u n (rows reg)" rule: list.exhaust [case_product list.exhaust])
      (auto simp: neq_Nil_conv)
  then show ?thesis by (simp add: get_or_create_def matching_def)
qed

lemma matching_append [simp]: "matching u n (xs @ ys) = matching u n xs @ matching u n ys"
  by (simp add: matching_def)

lemma matching_single:
  "matching u n [t] = (if tag_user t = u \<and> name t = n then [t] else [])"
  by (simp add: matching_def)

lemma rows_add [simp]: "rows (add rid obj reg) = rows reg"
  and next_id_add [simp]: "next_id (add rid obj reg) = next_id reg"
  and links_add [simp]: "links (add rid obj reg) = insert (rid, tag_id obj) (links reg)"
  by (simp_all add: add_def)

lemma rows_clear [simp]: "rows (clear rid reg) = rows reg"
  and next_id_clear [simp]: "next_id (clear rid reg) = next_id reg"
  and links_clear: "links (clear rid reg) = {p \<in> links reg. fst p \<noteq> rid}"
  by (auto simp: clear_def)

lemma unique_names_Cons:
  "unique_names u (n # ns) reg \<longleftrightarrow>
     length (matching u n (rows reg)) \<le> 1 \<and> unique_names u ns reg"
  by (simp add: unique_names_def)

lemma unique_names_iff:
  "unique_names u ns reg \<longleftrightarrow> (\<forall>n \<in> set ns. length (matching u n (rows reg)) \<le> 1)"
  by (simp add: unique_names_def list_all_iff)

lemma resolved_Cons:
  "resolved u (n # ns) reg = tag_id ` set (matching u n (rows reg)) \<union> resolved u ns reg"
  by (auto simp: resolved_def matching_def)

lemma resolved_Nil [simp]: "resolved u [] reg = {}"
  by (simp add: resolved_def)

lemma resolved_rows: "rows reg' = rows reg \<Longrightarrow> resolved u ns reg' = resolved u ns reg"
  by (simp add: resolved_def)

text \<open>One step of the loop, on a name with at most one row.\<close>

lemma get_or_create_step:
  assumes "length (matching u n (rows reg)) \<le> 1"
  shows "\<exists>t c reg'. get_or_create u n reg = (reg', Inr (t, c))
    \<and> matching u n (rows reg') = [t]
    \<and> (\<forall>u' n'. \<not> (u' = u \<and> n' = n) \<longrightarrow>
          matching u' n' (rows reg') = matching u' n' (rows reg))
    \<and> (matching u n (rows reg) \<noteq> [] \<longrightarrow> reg' = reg)
    \<and> links reg' = links reg"
proof (cases "matching u n (rows reg)")
  case Nil
  let ?t = "\<lparr>tag_id = next_id reg, name = n, tag_user = u\<rparr>"
  let ?reg = "reg\<lparr>rows := rows reg @ [?t], next_id := Suc (next_id reg)\<rparr>"
  have "get_or_create u n reg = (?reg, Inr (?t, True))"
    using Nil by (rule get_or_create_new)
  moreover have "matching u n (rows ?reg) = [?t]" using Nil by (simp add: matching_single)
  moreover have "\<forall>u' n'. \<not> (u' = u \<and> n' = n) \<longrightarrow>
      matching u' n' (rows ?reg) = matching u' n' (rows reg)"
    by (auto simp: matching_single)
  moreover have "links ?reg = links reg" by simp
  ultimately show ?thesis using Nil by blast
next
  case (Cons t ts)
  then have m: "matching u n (rows reg) = [t]" using assms by simp
  then have "get_or_create u n reg = (reg, Inr (t, False))" by (rule get_or_create_old)
  then show ?thesis using m by blast
qed

lemma get_and_create_ok:
  assumes "unique_names u ns reg"
  shows "\<exists>reg'. get_and_create u ns rid reg = (reg', Inr ())
     \<and> (\<forall>n \<in> set ns. \<exists>t. matching u n (rows reg') = [t])
     \<and> (\<forall>u' n'. \<not> (u' = u \<and> n' \<in> set ns) \<longrightarrow>
           matching u' n' (rows reg') = matching u' n' (rows reg))
     \<and> (\<forall>n. matching u n (rows reg) \<noteq> [] \<longrightarrow>
           matching u n (rows reg') = matching u n (rows reg))
     \<and> links reg' = links reg \<union> {rid} \<times> resolved u ns reg'"
  using assms
proof (induction ns arbitrary: reg)
  case Nil
  then show ?case by simp
next
  case (Cons n ns)
  from Cons.prems have one: "length (matching u n (rows reg)) \<le> 1"
    and rest: "unique_names u ns reg"
    by (simp_all add: unique_names_Cons)
  from one obtain t c reg1 where
    goc: "get_or_create u n reg = (reg1, Inr (t, c))" and
    m1: "matching u n (rows reg1) = [t]" and
    frame1: "\<And>u' n'. \<not> (u' = u \<and> n' = n) \<Longrightarrow>
        matching u' n' (rows reg1) = matching u' n' (rows reg)" and
    same1: "matching u n (rows reg) \<noteq> [] \<Longrightarrow> reg1 = reg" and
    l1: "links reg1 = links reg"
    using get_or_create_step [of u n reg] by blast
  let ?reg2 = "add rid t reg1"
  have len1: "length (matching u' n' (rows reg1)) \<le> 1"
    if "length (matching u' n' (rows reg)) \<le> 1" for u' n'
    using that m1 frame1 [of u' n'] by (cases "u' = u \<and> n' = n") auto
  have "unique_names u ns ?reg2"
    using rest len1 by (simp add: unique_names_iff)
  from Cons.IH [OF this] obtain reg' where
    run: "get_and_create u ns rid ?reg2 = (reg', Inr ())" and
    ex: "\<forall>n \<in> set ns. \<exists>t. matching u n (rows reg') = [t]" and
    frame: "\<forall>u' n'. \<not> (u' = u \<and> n' \<in> set ns) \<longrightarrow>
           matching u' n' (rows reg') = matching u' n' (rows ?reg2)" and
    same: "\<forall>n. matching u n (rows ?reg2) \<noteq> [] \<longrightarrow>
           matching u n (rows reg') = matching u n (rows ?reg2)" and
    l: "links reg' = links ?reg2 \<union> {rid} \<times> resolved u ns reg'"
    by blast
  have mt: "matching u n (rows reg') = [t]"
    using same m1 by simp
  have a: "get_and_create u (n # ns) rid reg = (reg', Inr ())"
    using goc run by simp
  have b: "\<forall>n' \<in> set (n # ns). \<exists>t. matching u n' (rows reg') = [t]"
    using ex mt by auto
  have c: "\<forall>u' n'. \<not> (u' = u \<and> n' \<in> set (n # ns)) \<longrightarrow>
           matching u' n' (rows reg') = matching u' n' (rows reg)"
    using frame frame1 by auto
  have d: "\<forall>n'. matching u n' (rows reg) \<noteq> [] \<longrightarrow>
           matching u n' (rows reg') = matching u n' (rows reg)"
  proof (intro allI impI)
    fix n' assume ne: "matching u n' (rows reg) \<noteq> []"
    have "matching u n' (rows reg1) = matching u n' (rows reg)"
      using same1 frame1 [of u n'] ne by (cases "n' = n") auto
    then show "matching u n' (rows reg') = matching u n' (rows reg)"
      using same ne by simp
  qed
  have e: "links reg' = links reg \<union> {rid} \<times> resolved u (n # ns) reg'"
    using l l1 mt by (auto simp: resolved_Cons)
  show ?case using a b c d e by blast
qed

lemma get_and_create_fails:
  assumes "\<not> unique_names u ns reg"
  shows "snd (get_and_create u ns rid reg) = Inl MultipleObjectsReturned"
  using assms
proof (induction ns arbitrary: reg)
  case Nil
  then show ?case by (simp add: unique_names_def)
next
  case (Cons n ns)
  show ?case
  proof (cases "length (matching u n (rows reg)) \<le> 1")
    case False
    then have "get_or_create u n reg = (reg, Inl MultipleObjectsReturned)"
      by (intro get_or_create_many) simp
    then show ?thesis by simp
  next
    case True
    then obtain t c reg1 where
      goc: "get_or_create u n reg = (reg1, Inr (t, c))" and
      m1: "matching u n (rows reg1) = [t]" and
      frame1: "\<And>u' n'. \<not> (u' = u \<and> n' = n) \<Longrightarrow>
          matching u' n' (rows reg1) = matching u' n' (rows reg)"
      using get_or_create_step [of u n reg] by blast
    from Cons.prems True obtain n' where n': "n' \<in> set ns" "\<not> length (matching u n' (rows reg)) \<le> 1"
      by (auto simp: unique_names_iff)
    then have "n' \<noteq> n" using True by auto
    then have "matching u n' (rows reg1) = matching u n' (rows reg)"
      using frame1 by simp
    then have "\<not> length (matching u n' (rows (add rid t reg1))) \<le> 1"
      using n'(2) by simp
    then have "\<not> unique_names u ns (add rid t reg1)"
      unfolding unique_names_iff using n'(1) by blast
    from Cons.IH [OF this] show ?thesis using goc by simp
  qed
qed

text \<open>Every listed name already has its one row: nothing is created.\<close>

lemma get_and_create_present:
  assumes "\<forall>n \<in> set ns. \<exists>t. matching u n (rows reg) = [t]"
  shows "get_and_create u ns rid reg =
     (reg\<lparr>links := links reg \<union> {rid} \<times> resolved u ns reg\<rparr>, Inr ())"
  using assms
proof (induction ns arbitrary: reg)
  case Nil
  then show ?case by simp
next
  case (Cons n ns)
  then obtain t where t: "matching u n (rows reg) = [t]" by auto
  have "\<forall>n \<in> set ns. \<exists>t'. matching u n (rows (add rid t reg)) = [t']"
    using Cons.prems by simp
  from Cons.IH [OF this]
  have run: "get_and_create u ns rid (add rid t reg) =
     ((add rid t reg)\<lparr>links := links (add rid t reg) \<union> {rid} \<times> resolved u ns (add rid t reg)\<rparr>,
      Inr ())" .
  have r: "resolved u ns (add rid t reg) = resolved u ns reg"
    by (rule resolved_rows) simp
  have s: "insert (rid, tag_id t) (links reg \<union> {rid} \<times> resolved u ns reg) =
      links reg \<union> {rid} \<times> resolved u (n # ns) reg"
    using t by (auto simp: resolved_Cons)
  show ?case
    using t run by (simp add: get_or_create_old r s)
qed

section \<open>Facts about create and update\<close>

lemma get_and_create_tags_eq:
  "get_and_create_tags req ns r db =
     (db\<lparr>Tag := fst (get_and_create (request_user req) ns (recipe_id r) (Tag db))\<rparr>,
      snd (get_and_create (request_user req) ns (recipe_id r) (Tag db)))"
  by (simp add: get_and_create_tags_def Let_def split_def)

lemma get_and_create_ingredients_eq:
  "get_and_create_ingredients req ns r db =
     (db\<lparr>Ingredient := fst (get_and_create (request_user req) ns (recipe_id r) (Ingredient db))\<rparr>,
      snd (get_and_create (request_user req) ns (recipe_id r) (Ingredient db)))"
  by (simp add: get_and_create_ingredients_def Let_def split_def)

lemma recipe_id_setattr [simp]: "recipe_id (setattr r i) = recipe_id r"
  by (cases i) simp_all

lemma recipe_id_fold_setattr [simp]:
  "recipe_id (fold (\<lambda>i r. setattr r i) items r) = recipe_id r"
  by (induction items arbitrary: r) simp_all






lemma save_frame [simp]:
  "Tag (save r db) = Tag db" "Ingredient (save r db) = Ingredient db"
  "users (save r db) = users db"
  by (simp_all add: save_def)

lemma update_unfold:
  "update req inst vd db =
     (let T = (case vd_tags vd of
                 None \<Rightarrow> (Tag db, Inr ())
               | Some ts \<Rightarrow>
                   get_and_create (request_user req) ts (recipe_id inst)
                     (clear (recipe_id inst) (Tag db)))
      in case snd T of
           Inl e \<Rightarrow> (db\<lparr>Tag := fst T\<rparr>, Inl e)
         | Inr _ \<Rightarrow>
             (let I = (case vd_ingredients vd of
                         None \<Rightarrow> (Ingredient db, Inr ())
                       | Some ns \<Rightarrow>
                           get_and_create (request_user req) ns (recipe_id inst)
                             (clear (recipe_id inst) (Ingredient db)))
              in case snd I of
                   Inl e \<Rightarrow> (db\<lparr>Tag := fst T, Ingredient := fst I\<rparr>, Inl e)
                 | Inr _ \<Rightarrow>
                     (save (fold (\<lambda>i r. setattr r i) (vd_items vd) inst)
                        (db\<lparr>Tag := fst T, Ingredient := fst I\<rparr>),
                      Inr (fold (\<lambda>i r. setattr r i) (vd_items vd) inst))))"
  by (simp add: update_def Let_def get_and_create_tags_eq get_and_create_ingredients_eq
      split: option.splits sum.splits)

lemma create_unfold:
  "create req vd db =
     (case List.map_filter (\<lambda>i. case i of Item_user u \<Rightarrow> Some u | _ \<Rightarrow> None) (vd_items vd) of
        [] \<Rightarrow> (db, Inl IntegrityError)
      | u # us \<Rightarrow>
         (let obj = fold (\<lambda>i r. setattr r i) (vd_items vd)
                 \<lparr>recipe_id = next_recipe_id db, user = u,
                  title_en = None, title_ar = None,
                  description_en = [], description_ar = [],
                  time_minutes_en = None, time_minutes_ar = None,
                  price_en = None, price_ar = None,
                  link_en = [], link_ar = [], image = None\<rparr>;
              db1 = db\<lparr>recipes := recipes db @ [obj], next_recipe_id := Suc (next_recipe_id db)\<rparr>;
              T = get_and_create (request_user req)
                    (case vd_tags vd of None \<Rightarrow> [] | Some ts \<Rightarrow> ts) (next_recipe_id db) (Tag db)
          in case snd T of
               Inl e \<Rightarrow> (db1\<lparr>Tag := fst T\<rparr>, Inl e)
             | Inr _ \<Rightarrow>
                 (let I = get_and_create (request_user req)
                       (case vd_ingredients vd of None \<Rightarrow> [] | Some ns \<Rightarrow> ns)
                       (next_recipe_id db) (Ingredient db)
                  in case snd I of
                       Inl e \<Rightarrow> (db1\<lparr>Tag := fst T, Ingredient := fst I\<rparr>, Inl e)
                     | Inr _ \<Rightarrow> (db1\<lparr>Tag := fst T, Ingredient := fst I\<rparr>, Inr obj))))"
  by (simp add: create_def Recipe_objects_create_def Let_def get_and_create_tags_eq
      get_and_create_ingredients_eq split: list.splits sum.splits)

section \<open>Resolution of tags and ingredients\<close>

text \<open>What one run of the loop gives on a table where no listed name has two rows.\<close>

lemma resolution_ok:
  assumes "unique_names u ns reg"
  shows "\<exists>reg'. get_and_create u ns rid reg = (reg', Inr ())
     \<and> (\<forall>n \<in> set ns. \<exists>t. matching u n (rows reg') = [t] \<and> (rid, tag_id t) \<in> links reg')
     \<and> links reg' = links reg \<union> {rid} \<times> resolved u ns reg'
     \<and> get_and_create u ns rid reg' = (reg', Inr ())
     \<and> (\<forall>other. rows (fst (get_and_create u ns other reg')) = rows reg'
            \<and> next_id (fst (get_and_create u ns other reg')) = next_id reg')"
proof -
  from get_and_create_ok [OF assms, of rid] obtain reg' where
    run: "get_and_create u ns rid reg = (reg', Inr ())" and
    ex: "\<forall>n \<in> set ns. \<exists>t. matching u n (rows reg') = [t]" and
    l: "links reg' = links reg \<union> {rid} \<times> resolved u ns reg'"
    by blast
  have att: "\<exists>t. matching u n (rows reg') = [t] \<and> (rid, tag_id t) \<in> links reg'"
    if "n \<in> set ns" for n
  proof -
    from ex that obtain t where t: "matching u n (rows reg') = [t]" by blast
    then have "t \<in> set (matching u n (rows reg'))" by simp
    then have "tag_id t \<in> resolved u ns reg'"
      using that by (auto simp: matching_def resolved_def)
    then show ?thesis using t l by blast
  qed
  have again: "get_and_create u ns other reg' =
      (reg'\<lparr>links := links reg' \<union> {other} \<times> resolved u ns reg'\<rparr>, Inr ())" for other
    using ex by (rule get_and_create_present)
  have "links reg' \<union> {rid} \<times> resolved u ns reg' = links reg'" using l by blast
  then have "get_and_create u ns rid reg' = (reg', Inr ())"
    using again [of rid] by simp
  then show ?thesis using run att l again by auto
qed


lemma linked_clear [simp]: "linked rid (clear rid reg) = {}"
  by (auto simp: linked_def links_clear)

lemma unique_names_clear [simp]: "unique_names u ns (clear rid reg) = unique_names u ns reg"
  by (simp add: unique_names_def)

lemma unique_names_Nil [simp]: "unique_names u [] reg"
  by (simp add: unique_names_def)

lemma get_and_create_result:
  "(snd (get_and_create u ns rid reg) = Inr ()) = unique_names u ns reg"
proof (cases "unique_names u ns reg")
  case True
  then show ?thesis using get_and_create_ok [OF True, of rid] by auto
next
  case False
  then show ?thesis using get_and_create_fails [OF False, of rid] by simp
qed

lemma has_user_cases:
  "has_user items \<Longrightarrow>
     \<exists>u us. List.map_filter (\<lambda>i. case i of Item_user u \<Rightarrow> Some u | _ \<Rightarrow> None) items = u # us"
  by (cases "List.map_filter (\<lambda>i. case i of Item_user u \<Rightarrow> Some u | _ \<Rightarrow> None) items")
    (simp_all add: has_user_def)


lemma create_with_user:
  assumes "has_user (vd_items vd)"
  shows "\<exists>r. recipe_id r = next_recipe_id db
     \<and> recipes (fst (create req vd db)) = recipes db @ [r]
     \<and> next_recipe_id (fst (create req vd db)) = Suc (next_recipe_id db)
     \<and> users (fst (create req vd db)) = users db
     \<and> Tag (fst (create req vd db)) =
         fst (get_and_create (request_user req) (listed (vd_tags vd)) (next_recipe_id db) (Tag db))
     \<and> (case snd (get_and_create (request_user req) (listed (vd_tags vd)) (next_recipe_id db) (Tag db)) of
          Inl e \<Rightarrow> snd (create req vd db) = Inl e
                   \<and> Ingredient (fst (create req vd db)) = Ingredient db
        | Inr _ \<Rightarrow>
           Ingredient (fst (create req vd db)) =
             fst (get_and_create (request_user req) (listed (vd_ingredients vd))
                    (next_recipe_id db) (Ingredient db))
           \<and> (case snd (get_and_create (request_user req) (listed (vd_ingredients vd))
                    (next_recipe_id db) (Ingredient db)) of
                 Inl e \<Rightarrow> snd (create req vd db) = Inl e
               | Inr _ \<Rightarrow> snd (create req vd db) = Inr r))"
proof -
  from has_user_cases [OF assms] obtain u us where
    "List.map_filter (\<lambda>i. case i of Item_user u \<Rightarrow> Some u | _ \<Rightarrow> None) (vd_items vd) = u # us"
    by blast
  then show ?thesis
    by (simp add: create_unfold Let_def listed_def split: sum.splits)
qed





section \<open>Claims about the serializer's reads and the user manager\<close>

text \<open>
  Claim C1. For every recipe and every language code of the request, each logical
  field (title, description, time_minutes, price, link) read through the recipe
  serializers is the \<open>_ar\<close> column when the code is \<^verbatim>\<open>ar\<close> and the \<open>_en\<close> column for
  every other code, so that any other code, supported or not, reads what \<^verbatim>\<open>en\<close>
  reads. The getters return a value and nothing else: they take no store and give
  none back, and the recipe they read is a value that they cannot change.
\<close>

theorem locale_projection:
  "(LANGUAGE_CODE req = ''ar'' \<longrightarrow>
      get_title req obj = title_ar obj \<and> get_description req obj = description_ar obj
      \<and> get_time_minutes req obj = time_minutes_ar obj \<and> get_price req obj = price_ar obj
      \<and> get_link req obj = link_ar obj)
   \<and> (LANGUAGE_CODE req \<noteq> ''ar'' \<longrightarrow>
      get_title req obj = title_en obj \<and> get_description req obj = description_en obj
      \<and> get_time_minutes req obj = time_minutes_en obj \<and> get_price req obj = price_en obj
      \<and> get_link req obj = link_en obj
      \<and> get_title req obj = get_title (req\<lparr>LANGUAGE_CODE := ''en''\<rparr>) obj
      \<and> get_description req obj = get_description (req\<lparr>LANGUAGE_CODE := ''en''\<rparr>) obj
      \<and> get_time_minutes req obj = get_time_minutes (req\<lparr>LANGUAGE_CODE := ''en''\<rparr>) obj
      \<and> get_price req obj = get_price (req\<lparr>LANGUAGE_CODE := ''en''\<rparr>) obj
      \<and> get_link req obj = get_link (req\<lparr>LANGUAGE_CODE := ''en''\<rparr>) obj)"
  by (simp add: get_title_def get_description_def get_time_minutes_def get_price_def get_link_def)

theorem locale_projection_witness:
  "get_title \<lparr>LANGUAGE_CODE = ''ar'', request_user = 1\<rparr>
     \<lparr>recipe_id = 7, user = 1, title_en = Some ''Soup'', title_ar = Some ''Shorba'',
      description_en = ''Hot'', description_ar = ''Harr'',
      time_minutes_en = Some 10, time_minutes_ar = Some 12,
      price_en = Some 550, price_ar = Some 600,
      link_en = ''en.example'', link_ar = ''ar.example'', image = None\<rparr> = Some ''Shorba''
   \<and> get_title \<lparr>LANGUAGE_CODE = ''fr'', request_user = 1\<rparr>
     \<lparr>recipe_id = 7, user = 1, title_en = Some ''Soup'', title_ar = Some ''Shorba'',
      description_en = ''Hot'', description_ar = ''Harr'',
      time_minutes_en = Some 10, time_minutes_ar = Some 12,
      price_en = Some 550, price_ar = Some 600,
      link_en = ''en.example'', link_ar = ''ar.example'', image = None\<rparr> = Some ''Soup''
   \<and> get_price \<lparr>LANGUAGE_CODE = ''fr'', request_user = 1\<rparr>
     \<lparr>recipe_id = 7, user = 1, title_en = Some ''Soup'', title_ar = Some ''Shorba'',
      description_en = ''Hot'', description_ar = ''Harr'',
      time_minutes_en = Some 10, time_minutes_ar = Some 12,
      price_en = Some 550, price_ar = Some 600,
      link_en = ''en.example'', link_ar = ''ar.example'', image = None\<rparr> = Some 550"
proof -
  let ?r = "\<lparr>recipe_id = 7, user = 1, title_en = Some ''Soup'', title_ar = Some ''Shorba'',
      description_en = ''Hot'', description_ar = ''Harr'',
      time_minutes_en = Some 10, time_minutes_ar = Some 12,
      price_en = Some 550, price_ar = Some 600,
      link_en = ''en.example'', link_ar = ''ar.example'', image = None\<rparr>"
  have a: "get_title \<lparr>LANGUAGE_CODE = ''ar'', request_user = 1\<rparr> ?r = Some ''Shorba''"
    using locale_projection [of "\<lparr>LANGUAGE_CODE = ''ar'', request_user = 1\<rparr>" ?r] by simp
  have b: "get_title \<lparr>LANGUAGE_CODE = ''fr'', request_user = 1\<rparr> ?r = Some ''Soup''"
    and c: "get_price \<lparr>LANGUAGE_CODE = ''fr'', request_user = 1\<rparr> ?r = Some 550"
    using locale_projection [of "\<lparr>LANGUAGE_CODE = ''fr'', request_user = 1\<rparr>" ?r] by simp_all
  show ?thesis using a b c by simp
qed

text \<open>
  Claim C7. \<^verbatim>\<open>create_user\<close> refuses an empty email (\<open>None\<close> or the empty string)
  with a \<^verbatim>\<open>ValueError\<close> and leaves the store as it was: nothing is saved. With a
  non-empty email, the only row the call can add is the new user's, and its password
  column holds the hasher's output for the given password, set before the save; the
  save is refused (and nothing added) only when the normalised email is taken, and
  goes through when it is free.
\<close>

theorem create_user_checks_email:
  "((email_arg = None \<or> email_arg = Some []) \<longrightarrow>
      create_user normalize_email make_password email_arg password_arg extra db =
        (db, Inl (ValueError ''User must have an email address.'')))
   \<and> (email_arg = Some e \<and> e \<noteq> [] \<longrightarrow>
      (create_user normalize_email make_password email_arg password_arg extra db =
         (db, Inl IntegrityError)
       \<and> (\<exists>v \<in> set (users db). email v = normalize_email e))
      \<or> (\<exists>u. create_user normalize_email make_password email_arg password_arg extra db =
           (db\<lparr>users := users db @ [u], next_user_id := Suc (next_user_id db)\<rparr>, Inr u)
         \<and> password u = make_password password_arg
         \<and> email u = normalize_email e
         \<and> user_id u = Some (next_user_id db)
         \<and> (\<forall>v \<in> set (users db). email v \<noteq> normalize_email e)))"
  by (auto simp: create_user_def save_user_def Let_def)

theorem create_user_checks_email_witness:
  "create_user (\<lambda>s. s) (\<lambda>p. case p of None \<Rightarrow> ''!'' | Some s \<Rightarrow> ''sha256$'' @ s)
      (Some []) (Some ''pw'')
      \<lparr>ef_name = None, ef_is_active = None, ef_is_staff = None, ef_is_superuser = None\<rparr>
      \<lparr>users = [], next_user_id = 1, recipes = [], next_recipe_id = 1,
       Tag = \<lparr>rows = [], next_id = 1, links = {}\<rparr>,
       Ingredient = \<lparr>rows = [], next_id = 1, links = {}\<rparr>\<rparr>
    = (\<lparr>users = [], next_user_id = 1, recipes = [], next_recipe_id = 1,
       Tag = \<lparr>rows = [], next_id = 1, links = {}\<rparr>,
       Ingredient = \<lparr>rows = [], next_id = 1, links = {}\<rparr>\<rparr>,
       Inl (ValueError ''User must have an email address.''))
   \<and> (\<exists>u. fst (create_user (\<lambda>s. s) (\<lambda>p. case p of None \<Rightarrow> ''!'' | Some s \<Rightarrow> ''sha256$'' @ s)
      (Some ''a@example.com'') (Some ''pw'')
      \<lparr>ef_name = None, ef_is_active = None, ef_is_staff = None, ef_is_superuser = None\<rparr>
      \<lparr>users = [], next_user_id = 1, recipes = [], next_recipe_id = 1,
       Tag = \<lparr>rows = [], next_id = 1, links = {}\<rparr>,
       Ingredient = \<lparr>rows = [], next_id = 1, links = {}\<rparr>\<rparr>)
     = \<lparr>users = [u], next_user_id = 2, recipes = [], next_recipe_id = 1,
       Tag = \<lparr>rows = [], next_id = 1, links = {}\<rparr>,
       Ingredient = \<lparr>rows = [], next_id = 1, links = {}\<rparr>\<rparr>
     \<and> password u = ''sha256$pw'')"
proof -
  let ?ne = "\<lambda>s::string. s"
  let ?mp = "\<lambda>p. case p of None \<Rightarrow> ''!'' | Some s \<Rightarrow> ''sha256$'' @ s"
  let ?x = "\<lparr>ef_name = None, ef_is_active = None, ef_is_staff = None, ef_is_superuser = None\<rparr>"
  let ?db = "\<lparr>users = [], next_user_id = 1, recipes = [], next_recipe_id = 1,
       Tag = \<lparr>rows = [], next_id = 1, links = {}\<rparr>,
       Ingredient = \<lparr>rows = [], next_id = 1, links = {}\<rparr>\<rparr>"
  have a: "create_user ?ne ?mp (Some []) (Some ''pw'') ?x ?db =
      (?db, Inl (ValueError ''User must have an email address.''))"
    using create_user_checks_email [of "Some []" ?ne ?mp "Some ''pw''" ?x ?db "[]"] by simp
  have b: "\<exists>u. fst (create_user ?ne ?mp (Some ''a@example.com'') (Some ''pw'') ?x ?db)
     = \<lparr>users = [u], next_user_id = 2, recipes = [], next_recipe_id = 1,
       Tag = \<lparr>rows = [], next_id = 1, links = {}\<rparr>,
       Ingredient = \<lparr>rows = [], next_id = 1, links = {}\<rparr>\<rparr>
     \<and> password u = ''sha256$pw''"
    using create_user_checks_email [of "Some ''a@example.com''" ?ne ?mp "Some ''pw''" ?x ?db
        "''a@example.com''"]
    by auto
  show ?thesis using a b by blast
qed

section \<open>Claims about resolving, creating and updating\<close>














lemma unique_names_append:
  "unique_names u (xs @ ys) reg \<longleftrightarrow> unique_names u xs reg \<and> unique_names u ys reg"
  by (simp add: unique_names_def)

lemma unique_names_kept:
  assumes "unique_names u ns reg" "unique_names u ms reg"
  shows "unique_names u ms (fst (get_and_create u ns rid reg))"
proof -
  from get_and_create_ok [OF assms(1), of rid] obtain reg' where
    run: "get_and_create u ns rid reg = (reg', Inr ())" and
    ex: "\<forall>n \<in> set ns. \<exists>t. matching u n (rows reg') = [t]" and
    frame: "\<forall>u' n'. \<not> (u' = u \<and> n' \<in> set ns) \<longrightarrow>
           matching u' n' (rows reg') = matching u' n' (rows reg)"
    by blast
  have "length (matching u m (rows reg')) \<le> 1" if "m \<in> set ms" for m
  proof (cases "m \<in> set ns")
    case True
    then obtain t where "matching u m (rows reg') = [t]" using ex by blast
    then show ?thesis by simp
  next
    case False
    then have "matching u m (rows reg') = matching u m (rows reg)" using frame by simp
    then show ?thesis using assms(2) that by (simp add: unique_names_iff)
  qed
  then show ?thesis using run by (simp add: unique_names_iff)
qed

text \<open>Two creates in a row, by the same requester, that list a common tag name.\<close>

lemma shared_row:
  assumes u1: "unique_names u ns1 reg" and u2: "unique_names u ns2 reg"
    and n1: "n \<in> set ns1" and n2: "n \<in> set ns2"
  shows "\<exists>t. matching u n (rows (fst (get_and_create u ns2 r2 (fst (get_and_create u ns1 r1 reg))))) = [t]
     \<and> (r1, tag_id t) \<in> links (fst (get_and_create u ns2 r2 (fst (get_and_create u ns1 r1 reg))))
     \<and> (r2, tag_id t) \<in> links (fst (get_and_create u ns2 r2 (fst (get_and_create u ns1 r1 reg))))"
proof -
  from resolution_ok [OF u1, of r1] obtain reg1 where
    run1: "get_and_create u ns1 r1 reg = (reg1, Inr ())" and
    ex1: "\<forall>n \<in> set ns1. \<exists>t. matching u n (rows reg1) = [t] \<and> (r1, tag_id t) \<in> links reg1"
    by blast
  from ex1 n1 obtain t where t: "matching u n (rows reg1) = [t]" "(r1, tag_id t) \<in> links reg1"
    by blast
  have "unique_names u ns2 reg1"
    using unique_names_kept [OF u1 u2, of r1] run1 by simp
  from get_and_create_ok [OF this, of r2] resolution_ok [OF this, of r2] obtain reg2 where
    run2: "get_and_create u ns2 r2 reg1 = (reg2, Inr ())" and
    same: "\<forall>n. matching u n (rows reg1) \<noteq> [] \<longrightarrow>
           matching u n (rows reg2) = matching u n (rows reg1)" and
    l2: "links reg2 = links reg1 \<union> {r2} \<times> resolved u ns2 reg2" and
    ex2: "\<forall>n \<in> set ns2. \<exists>t. matching u n (rows reg2) = [t] \<and> (r2, tag_id t) \<in> links reg2"
    by auto
  have m: "matching u n (rows reg2) = [t]" using same t(1) by simp
  moreover have "(r1, tag_id t) \<in> links reg2" using l2 t(2) by blast
  moreover have "(r2, tag_id t) \<in> links reg2" using ex2 n2 m by auto
  ultimately show ?thesis using run1 run2 by simp
qed

lemma delete_recipe_frame:
  "rows (Tag (delete_recipe rid db)) = rows (Tag db)"
  "rows (Ingredient (delete_recipe rid db)) = rows (Ingredient db)"
  "links (Tag (delete_recipe rid db)) = {p \<in> links (Tag db). fst p \<noteq> rid}"
  "links (Ingredient (delete_recipe rid db)) = {p \<in> links (Ingredient db). fst p \<noteq> rid}"
  "users (delete_recipe rid db) = users db"
  by (simp_all add: delete_recipe_def links_clear)

lemma create_completes:
  assumes "has_user (vd_items vd)"
    and "unique_names (request_user req) (listed (vd_tags vd)) (Tag db)"
    and "unique_names (request_user req) (listed (vd_ingredients vd)) (Ingredient db)"
  shows "\<exists>db' r. create req vd db = (db', Inr r)
     \<and> recipe_id r = next_recipe_id db
     \<and> next_recipe_id db' = Suc (next_recipe_id db)
     \<and> Tag db' = fst (get_and_create (request_user req) (listed (vd_tags vd))
                        (next_recipe_id db) (Tag db))
     \<and> Ingredient db' = fst (get_and_create (request_user req) (listed (vd_ingredients vd))
                        (next_recipe_id db) (Ingredient db))"
proof -
  have s: "snd (get_and_create (request_user req) (listed (vd_tags vd)) (next_recipe_id db) (Tag db))
        = Inr ()"
      "snd (get_and_create (request_user req) (listed (vd_ingredients vd)) (next_recipe_id db)
          (Ingredient db)) = Inr ()"
    using assms(2,3) by (simp_all add: get_and_create_result)
  from create_with_user [OF assms(1), of db req] s obtain r where
    r: "recipe_id r = next_recipe_id db"
      "next_recipe_id (fst (create req vd db)) = Suc (next_recipe_id db)"
      "Tag (fst (create req vd db)) =
         fst (get_and_create (request_user req) (listed (vd_tags vd)) (next_recipe_id db) (Tag db))"
      "Ingredient (fst (create req vd db)) =
         fst (get_and_create (request_user req) (listed (vd_ingredients vd))
                (next_recipe_id db) (Ingredient db))"
      "snd (create req vd db) = Inr r"
    by auto
  have "create req vd db = (fst (create req vd db), Inr r)"
    using r(5) by (metis prod.collapse)
  then show ?thesis using r(1-4) by metis
qed

text \<open>
  Claim C8. Two recipes created by the same requester with a common tag name are
  linked to one and the same \<^verbatim>\<open>Tag\<close> row (the stores being such that create
  completes). Deleting a recipe leaves every \<^verbatim>\<open>Tag\<close> and \<^verbatim>\<open>Ingredient\<close> row as it is
  and removes the association memberships of the deleted recipe and no others: in
  particular the shared row is still there, and still linked to the other recipe.
\<close>

theorem recipes_share_tags:
  "(has_user (vd_items vd1) \<and> has_user (vd_items vd2)
      \<and> n \<in> set (listed (vd_tags vd1)) \<and> n \<in> set (listed (vd_tags vd2))
      \<and> unique_names (request_user req) (listed (vd_tags vd1) @ listed (vd_tags vd2)) (Tag db)
      \<and> unique_names (request_user req)
           (listed (vd_ingredients vd1) @ listed (vd_ingredients vd2)) (Ingredient db) \<longrightarrow>
      (\<exists>db1 r1 db2 r2 t.
          create req vd1 db = (db1, Inr r1) \<and> create req vd2 db1 = (db2, Inr r2)
        \<and> recipe_id r1 \<noteq> recipe_id r2
        \<and> matching (request_user req) n (rows (Tag db2)) = [t]
        \<and> (recipe_id r1, tag_id t) \<in> links (Tag db2)
        \<and> (recipe_id r2, tag_id t) \<in> links (Tag db2)
        \<and> matching (request_user req) n (rows (Tag (delete_recipe (recipe_id r1) db2))) = [t]
        \<and> (recipe_id r2, tag_id t) \<in> links (Tag (delete_recipe (recipe_id r1) db2))
        \<and> (recipe_id r1, tag_id t) \<notin> links (Tag (delete_recipe (recipe_id r1) db2))))
   \<and> rows (Tag (delete_recipe rid db)) = rows (Tag db)
   \<and> rows (Ingredient (delete_recipe rid db)) = rows (Ingredient db)
   \<and> links (Tag (delete_recipe rid db)) = {p \<in> links (Tag db). fst p \<noteq> rid}
   \<and> links (Ingredient (delete_recipe rid db)) = {p \<in> links (Ingredient db). fst p \<noteq> rid}
   \<and> recipes (delete_recipe rid db) = filter (\<lambda>r. recipe_id r \<noteq> rid) (recipes db)"
proof -
  let ?u = "request_user req"
  have share: "\<exists>db1 r1 db2 r2 t.
          create req vd1 db = (db1, Inr r1) \<and> create req vd2 db1 = (db2, Inr r2)
        \<and> recipe_id r1 \<noteq> recipe_id r2
        \<and> matching ?u n (rows (Tag db2)) = [t]
        \<and> (recipe_id r1, tag_id t) \<in> links (Tag db2)
        \<and> (recipe_id r2, tag_id t) \<in> links (Tag db2)
        \<and> matching ?u n (rows (Tag (delete_recipe (recipe_id r1) db2))) = [t]
        \<and> (recipe_id r2, tag_id t) \<in> links (Tag (delete_recipe (recipe_id r1) db2))
        \<and> (recipe_id r1, tag_id t) \<notin> links (Tag (delete_recipe (recipe_id r1) db2))"
    if h: "has_user (vd_items vd1)" "has_user (vd_items vd2)"
      "n \<in> set (listed (vd_tags vd1))" "n \<in> set (listed (vd_tags vd2))"
      "unique_names ?u (listed (vd_tags vd1) @ listed (vd_tags vd2)) (Tag db)"
      "unique_names ?u (listed (vd_ingredients vd1) @ listed (vd_ingredients vd2)) (Ingredient db)"
  proof -
    from h(5,6) have
      t1: "unique_names ?u (listed (vd_tags vd1)) (Tag db)" and
      t2: "unique_names ?u (listed (vd_tags vd2)) (Tag db)" and
      i1: "unique_names ?u (listed (vd_ingredients vd1)) (Ingredient db)" and
      i2: "unique_names ?u (listed (vd_ingredients vd2)) (Ingredient db)"
      by (simp_all add: unique_names_append)
    from create_completes [OF h(1) t1 i1] obtain db1 r1 where
      c1: "create req vd1 db = (db1, Inr r1)" "recipe_id r1 = next_recipe_id db"
        "next_recipe_id db1 = Suc (next_recipe_id db)"
        "Tag db1 = fst (get_and_create ?u (listed (vd_tags vd1)) (next_recipe_id db) (Tag db))"
        "Ingredient db1 = fst (get_and_create ?u (listed (vd_ingredients vd1))
                        (next_recipe_id db) (Ingredient db))"
      by blast
    have t2': "unique_names ?u (listed (vd_tags vd2)) (Tag db1)"
      unfolding c1(4) using t1 t2 by (rule unique_names_kept)
    have i2': "unique_names ?u (listed (vd_ingredients vd2)) (Ingredient db1)"
      unfolding c1(5) using i1 i2 by (rule unique_names_kept)
    from create_completes [OF h(2) t2' i2'] obtain db2 r2 where
      c2: "create req vd2 db1 = (db2, Inr r2)" "recipe_id r2 = next_recipe_id db1"
        "Tag db2 = fst (get_and_create ?u (listed (vd_tags vd2)) (next_recipe_id db1) (Tag db1))"
      by blast
    from shared_row [OF t1 t2 h(3) h(4), of "next_recipe_id db1" "next_recipe_id db"]
    obtain t where
      t: "matching ?u n (rows (Tag db2)) = [t]"
        "(recipe_id r1, tag_id t) \<in> links (Tag db2)"
        "(recipe_id r2, tag_id t) \<in> links (Tag db2)"
      unfolding c2(3) c1(4) c2(2) c1(2) by blast
    have ne: "recipe_id r1 \<noteq> recipe_id r2" using c1(2,3) c2(2) by simp
    have d: "matching ?u n (rows (Tag (delete_recipe (recipe_id r1) db2))) = [t]"
      "(recipe_id r2, tag_id t) \<in> links (Tag (delete_recipe (recipe_id r1) db2))"
      "(recipe_id r1, tag_id t) \<notin> links (Tag (delete_recipe (recipe_id r1) db2))"
      using t ne by (simp_all add: delete_recipe_frame)
    show ?thesis using c1(1) c2(1) ne t d by blast
  qed
  have del: "rows (Tag (delete_recipe rid db)) = rows (Tag db)"
    "rows (Ingredient (delete_recipe rid db)) = rows (Ingredient db)"
    "links (Tag (delete_recipe rid db)) = {p \<in> links (Tag db). fst p \<noteq> rid}"
    "links (Ingredient (delete_recipe rid db)) = {p \<in> links (Ingredient db). fst p \<noteq> rid}"
    "recipes (delete_recipe rid db) = filter (\<lambda>r. recipe_id r \<noteq> rid) (recipes db)"
    by (simp_all add: delete_recipe_frame) (simp add: delete_recipe_def)
  show ?thesis using share del by blast
qed

theorem recipes_share_tags_witness:
  "\<exists>db1 r1 db2 r2 t.
      create sample_request
        \<lparr>vd_tags = Some [''spicy''], vd_ingredients = None, vd_items = [Item_user 1]\<rparr> sample_db
        = (db1, Inr r1)
    \<and> create sample_request
        \<lparr>vd_tags = Some [''old'', ''spicy''], vd_ingredients = Some [''salt''],
         vd_items = [Item_user 1]\<rparr> db1 = (db2, Inr r2)
    \<and> recipe_id r1 \<noteq> recipe_id r2
    \<and> matching 1 ''spicy'' (rows (Tag db2)) = [t]
    \<and> (recipe_id r1, tag_id t) \<in> links (Tag db2)
    \<and> (recipe_id r2, tag_id t) \<in> links (Tag db2)
    \<and> matching 1 ''spicy'' (rows (Tag (delete_recipe (recipe_id r1) db2))) = [t]
    \<and> (recipe_id r2, tag_id t) \<in> links (Tag (delete_recipe (recipe_id r1) db2))"
proof -
  let ?a = "\<lparr>vd_tags = Some [''spicy''], vd_ingredients = None, vd_items = [Item_user 1]\<rparr>"
  let ?b = "\<lparr>vd_tags = Some [''old'', ''spicy''], vd_ingredients = Some [''salt''],
         vd_items = [Item_user 1]\<rparr>"
  have hu: "has_user (vd_items ?a)" "has_user (vd_items ?b)"
    by (simp_all add: has_user_def List.map_filter_def)
  have n: "''spicy'' \<in> set (listed (vd_tags ?a))" "''spicy'' \<in> set (listed (vd_tags ?b))"
    by (simp_all add: listed_def)
  have u: "unique_names (request_user sample_request)
      (listed (vd_tags ?a) @ listed (vd_tags ?b)) (Tag sample_db)"
    "unique_names (request_user sample_request)
      (listed (vd_ingredients ?a) @ listed (vd_ingredients ?b)) (Ingredient sample_db)"
    by (simp_all add: listed_def unique_names_def matching_def sample_db_def sample_request_def)
  have "\<exists>db1 r1 db2 r2 t.
          create sample_request ?a sample_db = (db1, Inr r1)
        \<and> create sample_request ?b db1 = (db2, Inr r2)
        \<and> recipe_id r1 \<noteq> recipe_id r2
        \<and> matching (request_user sample_request) ''spicy'' (rows (Tag db2)) = [t]
        \<and> (recipe_id r1, tag_id t) \<in> links (Tag db2)
        \<and> (recipe_id r2, tag_id t) \<in> links (Tag db2)
        \<and> matching (request_user sample_request) ''spicy''
            (rows (Tag (delete_recipe (recipe_id r1) db2))) = [t]
        \<and> (recipe_id r2, tag_id t) \<in> links (Tag (delete_recipe (recipe_id r1) db2))
        \<and> (recipe_id r1, tag_id t) \<notin> links (Tag (delete_recipe (recipe_id r1) db2))"
    using recipes_share_tags [of ?a ?b "''spicy''" sample_request sample_db] hu n u
    by blast
  then obtain db1 r1 db2 r2 t where
    "create sample_request ?a sample_db = (db1, Inr r1)"
    "create sample_request ?b db1 = (db2, Inr r2)"
    "recipe_id r1 \<noteq> recipe_id r2"
    "matching 1 ''spicy'' (rows (Tag db2)) = [t]"
    "(recipe_id r1, tag_id t) \<in> links (Tag db2)"
    "(recipe_id r2, tag_id t) \<in> links (Tag db2)"
    "matching 1 ''spicy'' (rows (Tag (delete_recipe (recipe_id r1) db2))) = [t]"
    "(recipe_id r2, tag_id t) \<in> links (Tag (delete_recipe (recipe_id r1) db2))"
    by (auto simp: sample_request_def)
  then show ?thesis by blast
qed

section \<open>The serializer's writes\<close>

lemma map_of_filter_key:
  "k \<in> S \<Longrightarrow> map_of (filter (\<lambda>kv. fst kv \<in> S) data) k = map_of data k"
  by (induction data) auto

lemma set_field_image_only:
  assumes "set_field V data f vd = Inr vd'" "\<forall>i \<in> set (vd_items vd). attr_of i = Attr_image"
  shows "\<forall>i \<in> set (vd_items vd'). attr_of i = Attr_image"
proof -
  obtain k kind where f: "f = (k, kind)" by (cases f)
  show ?thesis
    using assms unfolding f
    by (cases kind) (auto split: option.splits json.splits sum.splits)
qed

lemma set_fields_image_only:
  assumes "set_fields V data fs vd = Inr vd'" "\<forall>i \<in> set (vd_items vd). attr_of i = Attr_image"
  shows "\<forall>i \<in> set (vd_items vd'). attr_of i = Attr_image"
  using assms
proof (induction fs arbitrary: vd)
  case Nil
  then show ?case by simp
next
  case (Cons f fs)
  from Cons.prems(1) obtain vd1 where
    s: "set_field V data f vd = Inr vd1" "set_fields V data fs vd1 = Inr vd'"
    by (auto split: sum.splits)
  from set_field_image_only [OF s(1) Cons.prems(2)] Cons.IH [OF s(2)] show ?case by blast
qed

lemma to_internal_value_image_only:
  "to_internal_value V declared data = Inr vd \<Longrightarrow> \<forall>i \<in> set (vd_items vd). attr_of i = Attr_image"
  unfolding to_internal_value_def by (erule set_fields_image_only) simp

lemma set_field_key_filter:
  assumes "fst f \<in> S \<or> snd f \<in> {Read_only_field, Serializer_method_field}"
  shows "set_field V (filter (\<lambda>kv. fst kv \<in> S) data) f vd = set_field V data f vd"
proof -
  obtain k kind where f: "f = (k, kind)" by (cases f)
  show ?thesis
    using assms unfolding f by (cases kind) (simp_all add: map_of_filter_key)
qed

lemma set_fields_key_filter:
  assumes "\<forall>f \<in> set fs. fst f \<in> S \<or> snd f \<in> {Read_only_field, Serializer_method_field}"
  shows "set_fields V (filter (\<lambda>kv. fst kv \<in> S) data) fs vd = set_fields V data fs vd"
  using assms
  by (induction fs arbitrary: vd) (simp_all add: set_field_key_filter split: sum.splits)

lemma locale_columns_setattr:
  "attr_of i \<in> {Attr_image, Attr_user} \<Longrightarrow> locale_columns (setattr r i) = locale_columns r"
  by (cases i) (simp_all add: locale_columns_def)

lemma locale_columns_fold:
  "\<forall>i \<in> set items. attr_of i \<in> {Attr_image, Attr_user} \<Longrightarrow>
     locale_columns (fold (\<lambda>i r. setattr r i) items r) = locale_columns r"
  by (induction items arbitrary: r) (simp_all add: locale_columns_setattr)

lemma update_recipes:
  "recipes (fst (update req inst vd db)) = recipes db
   \<or> (recipes (fst (update req inst vd db)) =
         recipes (save (fold (\<lambda>i r. setattr r i) (vd_items vd) inst) db)
       \<and> snd (update req inst vd db) = Inr (fold (\<lambda>i r. setattr r i) (vd_items vd) inst))"
  by (simp add: update_unfold Let_def save_def split: sum.splits option.splits)

lemma update_result:
  "snd (update req inst vd db) = Inr r \<Longrightarrow> r = fold (\<lambda>i r. setattr r i) (vd_items vd) inst"
  by (simp add: update_unfold Let_def split: sum.splits option.splits)

lemma save_locale_columns:
  assumes "inst \<in> set (recipes db)"
    and "\<forall>r \<in> set (recipes db). recipe_id r = recipe_id inst \<longrightarrow> r = inst"
    and "recipe_id new = recipe_id inst" "locale_columns new = locale_columns inst"
  shows "map locale_columns (recipes (save new db)) = map locale_columns (recipes db)"
proof -
  have "map locale_columns (map (\<lambda>r. if recipe_id r = recipe_id new then new else r) xs)
      = map locale_columns xs"
    if "\<forall>r \<in> set xs. recipe_id r = recipe_id inst \<longrightarrow> r = inst" for xs
    using that assms(3,4) by (induction xs) auto
  then show ?thesis using assms by (auto simp: save_def)
qed

lemma create_recipes:
  "recipes (fst (create req vd db)) = recipes db
   \<or> (\<exists>u. recipes (fst (create req vd db)) = recipes db @
        [fold (\<lambda>i r. setattr r i) (vd_items vd)
           \<lparr>recipe_id = next_recipe_id db, user = u,
            title_en = None, title_ar = None,
            description_en = [], description_ar = [],
            time_minutes_en = None, time_minutes_ar = None,
            price_en = None, price_ar = None,
            link_en = [], link_ar = [], image = None\<rparr>])"
  by (auto simp: create_unfold Let_def split: list.splits sum.splits)

lemma serializer_save_unfold:
  "serializer_save V declared req instance data kwargs db =
     (case to_internal_value V declared data of
        Inl e \<Rightarrow> (db, Inl e)
      | Inr vd \<Rightarrow>
          (case instance of
             None \<Rightarrow>
               create req
                 (vd\<lparr>vd_items := filter (\<lambda>i. attr_of i \<notin> attr_of ` set kwargs) (vd_items vd) @ kwargs\<rparr>)
                 db
           | Some obj \<Rightarrow>
               update req obj
                 (vd\<lparr>vd_items := filter (\<lambda>i. attr_of i \<notin> attr_of ` set kwargs) (vd_items vd) @ kwargs\<rparr>)
                 db))"
  by (simp add: serializer_save_def Let_def split: sum.splits)

lemma merged_items:
  assumes "\<forall>i \<in> set items. attr_of i = Attr_image" "\<forall>i \<in> set kwargs. attr_of i = Attr_user"
  shows "\<forall>i \<in> set (filter (\<lambda>i. attr_of i \<notin> attr_of ` set kwargs) items @ kwargs).
           attr_of i \<in> {Attr_image, Attr_user}"
  using assms by auto

text \<open>
  Claim C9. \<^verbatim>\<open>title\<close>, \<^verbatim>\<open>description\<close>, \<^verbatim>\<open>time_minutes\<close>, \<^verbatim>\<open>price\<close> and \<^verbatim>\<open>link\<close> are
  method fields, hence read-only: of a payload, both recipe serializers read the keys
  \<^verbatim>\<open>tags\<close>, \<^verbatim>\<open>ingredients\<close> and \<^verbatim>\<open>image\<close> and nothing else, and the only column entry
  that validation can produce is the image. So a save through either serializer
  (the view adding at most the owner) never changes a language-qualified column: an
  update leaves the ten \<open>_en\<close>/\<open>_ar\<close> columns of every stored recipe, and of the
  instance it returns, as they were; a create adds at most one row, whose
  language-qualified columns hold the column defaults.
\<close>

theorem serializer_leaves_locale_columns:
  "(declared = RecipeSerializer_fields \<or> declared = RecipeDetailSerializer_fields) \<longrightarrow>
     to_internal_value V declared data =
       to_internal_value V declared
         (filter (\<lambda>kv. fst kv \<in> {''tags'', ''ingredients'', ''image''}) data)
     \<and> (\<forall>vd. to_internal_value V declared data = Inr vd \<longrightarrow>
           (\<forall>i \<in> set (vd_items vd). attr_of i = Attr_image))
     \<and> ((\<forall>i \<in> set kwargs. attr_of i = Attr_user) \<and> inst \<in> set (recipes db)
          \<and> (\<forall>r \<in> set (recipes db). recipe_id r = recipe_id inst \<longrightarrow> r = inst) \<longrightarrow>
          map locale_columns
            (recipes (fst (serializer_save V declared req (Some inst) data kwargs db)))
            = map locale_columns (recipes db)
          \<and> (\<forall>r. snd (serializer_save V declared req (Some inst) data kwargs db) = Inr r \<longrightarrow>
                locale_columns r = locale_columns inst))
     \<and> ((\<forall>i \<in> set kwargs. attr_of i = Attr_user) \<longrightarrow>
          recipes (fst (serializer_save V declared req None data kwargs db)) = recipes db
          \<or> (\<exists>r. recipes (fst (serializer_save V declared req None data kwargs db))
                   = recipes db @ [r]
                \<and> locale_columns r = ((None, None), ([], []), (None, None), (None, None), ([], []))))"
proof (intro impI)
  assume decl: "declared = RecipeSerializer_fields \<or> declared = RecipeDetailSerializer_fields"
  let ?S = "{''tags'', ''ingredients'', ''image''}"
  have w: "\<forall>f \<in> set declared. fst f \<in> ?S \<or> snd f \<in> {Read_only_field, Serializer_method_field}"
    using decl by (auto simp: RecipeSerializer_fields_def RecipeDetailSerializer_fields_def)
  have a: "to_internal_value V declared data =
       to_internal_value V declared (filter (\<lambda>kv. fst kv \<in> ?S) data)"
    unfolding to_internal_value_def by (rule set_fields_key_filter [OF w, symmetric])
  have b: "\<forall>vd. to_internal_value V declared data = Inr vd \<longrightarrow>
           (\<forall>i \<in> set (vd_items vd). attr_of i = Attr_image)"
    using to_internal_value_image_only by blast
  have c: "map locale_columns
            (recipes (fst (serializer_save V declared req (Some inst) data kwargs db)))
            = map locale_columns (recipes db)
          \<and> (\<forall>r. snd (serializer_save V declared req (Some inst) data kwargs db) = Inr r \<longrightarrow>
                locale_columns r = locale_columns inst)"
    if k: "\<forall>i \<in> set kwargs. attr_of i = Attr_user" and m: "inst \<in> set (recipes db)"
      and uq: "\<forall>r \<in> set (recipes db). recipe_id r = recipe_id inst \<longrightarrow> r = inst"
  proof (cases "to_internal_value V declared data")
    case (Inl e)
    then show ?thesis by (simp add: serializer_save_unfold)
  next
    case (Inr vd)
    let ?items = "filter (\<lambda>i. attr_of i \<notin> attr_of ` set kwargs) (vd_items vd) @ kwargs"
    let ?vd = "vd\<lparr>vd_items := ?items\<rparr>"
    let ?new = "fold (\<lambda>i r. setattr r i) ?items inst"
    have s: "serializer_save V declared req (Some inst) data kwargs db = update req inst ?vd db"
      using Inr by (simp add: serializer_save_unfold)
    have "\<forall>i \<in> set ?items. attr_of i \<in> {Attr_image, Attr_user}"
      using to_internal_value_image_only [OF Inr] k by (rule merged_items)
    then have lc: "locale_columns ?new = locale_columns inst"
      by (rule locale_columns_fold)
    have sv: "map locale_columns (recipes (save ?new db)) = map locale_columns (recipes db)"
      using m uq _ lc by (rule save_locale_columns) simp
    have one: "map locale_columns (recipes (fst (update req inst ?vd db)))
        = map locale_columns (recipes db)"
      using update_recipes [of req inst ?vd db] sv by auto
    have two: "locale_columns r = locale_columns inst"
      if "snd (update req inst ?vd db) = Inr r" for r
      using update_result [OF that] lc by simp
    show ?thesis unfolding s using one two by blast
  qed
  have d: "recipes (fst (serializer_save V declared req None data kwargs db)) = recipes db
          \<or> (\<exists>r. recipes (fst (serializer_save V declared req None data kwargs db))
                   = recipes db @ [r]
                \<and> locale_columns r = ((None, None), ([], []), (None, None), (None, None), ([], [])))"
    if k: "\<forall>i \<in> set kwargs. attr_of i = Attr_user"
  proof (cases "to_internal_value V declared data")
    case (Inl e)
    then show ?thesis by (simp add: serializer_save_unfold)
  next
    case (Inr vd)
    let ?items = "filter (\<lambda>i. attr_of i \<notin> attr_of ` set kwargs) (vd_items vd) @ kwargs"
    let ?vd = "vd\<lparr>vd_items := ?items\<rparr>"
    have s: "serializer_save V declared req None data kwargs db = create req ?vd db"
      using Inr by (simp add: serializer_save_unfold)
    have it: "\<forall>i \<in> set ?items. attr_of i \<in> {Attr_image, Attr_user}"
      using to_internal_value_image_only [OF Inr] k by (rule merged_items)
    have "locale_columns (fold (\<lambda>i r. setattr r i) ?items
           \<lparr>recipe_id = next_recipe_id db, user = u,
            title_en = None, title_ar = None,
            description_en = [], description_ar = [],
            time_minutes_en = None, time_minutes_ar = None,
            price_en = None, price_ar = None,
            link_en = [], link_ar = [], image = None\<rparr>)
        = ((None, None), ([], []), (None, None), (None, None), ([], []))" for u
      using locale_columns_fold [OF it] by (simp add: locale_columns_def)
    then show ?thesis
      unfolding s using create_recipes [of req ?vd db] by auto
  qed
  show "to_internal_value V declared data =
       to_internal_value V declared (filter (\<lambda>kv. fst kv \<in> ?S) data)
     \<and> (\<forall>vd. to_internal_value V declared data = Inr vd \<longrightarrow>
           (\<forall>i \<in> set (vd_items vd). attr_of i = Attr_image))
     \<and> ((\<forall>i \<in> set kwargs. attr_of i = Attr_user) \<and> inst \<in> set (recipes db)
          \<and> (\<forall>r \<in> set (recipes db). recipe_id r = recipe_id inst \<longrightarrow> r = inst) \<longrightarrow>
          map locale_columns
            (recipes (fst (serializer_save V declared req (Some inst) data kwargs db)))
            = map locale_columns (recipes db)
          \<and> (\<forall>r. snd (serializer_save V declared req (Some inst) data kwargs db) = Inr r \<longrightarrow>
                locale_columns r = locale_columns inst))
     \<and> ((\<forall>i \<in> set kwargs. attr_of i = Attr_user) \<longrightarrow>
          recipes (fst (serializer_save V declared req None data kwargs db)) = recipes db
          \<or> (\<exists>r. recipes (fst (serializer_save V declared req None data kwargs db))
                   = recipes db @ [r]
                \<and> locale_columns r = ((None, None), ([], []), (None, None), (None, None), ([], []))))"
    using a b c d by blast
qed

theorem serializer_leaves_locale_columns_witness:
  "map locale_columns
     (recipes (fst (serializer_save sample_validators RecipeSerializer_fields sample_request
        (Some sample_recipe)
        [(''title'', JStr ''Changed''), (''title_en'', JStr ''Changed''), (''price'', JInt 1),
         (''tags'', JList [JObj [(''name'', JStr ''veg'')]]), (''image'', JFile ''a.png'')]
        [] sample_db)))
     = map locale_columns (recipes sample_db)
   \<and> (recipes (fst (serializer_save sample_validators RecipeDetailSerializer_fields sample_request
        None
        [(''description'', JStr ''Changed''), (''description_ar'', JStr ''Changed'')]
        [Item_user 1] sample_db)) = recipes sample_db
      \<or> (\<exists>r. recipes (fst (serializer_save sample_validators RecipeDetailSerializer_fields
              sample_request None
              [(''description'', JStr ''Changed''), (''description_ar'', JStr ''Changed'')]
              [Item_user 1] sample_db)) = recipes sample_db @ [r]
            \<and> locale_columns r = ((None, None), ([], []), (None, None), (None, None), ([], []))))"
proof -
  let ?d1 = "[(''title'', JStr ''Changed''), (''title_en'', JStr ''Changed''), (''price'', JInt 1),
         (''tags'', JList [JObj [(''name'', JStr ''veg'')]]), (''image'', JFile ''a.png'')]"
  let ?d2 = "[(''description'', JStr ''Changed''), (''description_ar'', JStr ''Changed'')]"
  have m: "sample_recipe \<in> set (recipes sample_db)"
    "\<forall>r \<in> set (recipes sample_db). recipe_id r = recipe_id sample_recipe \<longrightarrow> r = sample_recipe"
    by (simp_all add: sample_db_def)
  have a: "map locale_columns
     (recipes (fst (serializer_save sample_validators RecipeSerializer_fields sample_request
        (Some sample_recipe) ?d1 [] sample_db))) = map locale_columns (recipes sample_db)"
    using serializer_leaves_locale_columns [of RecipeSerializer_fields sample_validators ?d1 "[]"
        sample_recipe sample_db sample_request] m
    by simp
  have b: "recipes (fst (serializer_save sample_validators RecipeDetailSerializer_fields sample_request
        None ?d2 [Item_user 1] sample_db)) = recipes sample_db
      \<or> (\<exists>r. recipes (fst (serializer_save sample_validators RecipeDetailSerializer_fields
              sample_request None ?d2 [Item_user 1] sample_db)) = recipes sample_db @ [r]
            \<and> locale_columns r = ((None, None), ([], []), (None, None), (None, None), ([], [])))"
    using serializer_leaves_locale_columns [of RecipeDetailSerializer_fields sample_validators ?d2
        "[Item_user 1]" sample_recipe sample_db sample_request]
    by simp
  show ?thesis using a b by blast
qed

end
